theory Spec2Isabelle
  imports Complex_Main "HOL-Library.AList" "HOL-Library.Sublist"
begin

section \<open>Strings\<close>

text \<open>
  Python strings are modelled as \<^typ>\<open>string\<close>; a \<^typ>\<open>char\<close> stands for one code
  point in the range 0..255. The character classes below are Python's own on that range:
  \<^verbatim>\<open>\w\<close> of the \<^verbatim>\<open>re\<close> module (letters, digits and numerics, underscore),
  \<^verbatim>\<open>str.isspace\<close> and \<^verbatim>\<open>str.lower\<close>.
\<close>

definition word_char :: "char \<Rightarrow> bool" where
  "word_char c =
     (let n = (of_char c :: nat) in
        (48 \<le> n \<and> n \<le> 57) \<or> (65 \<le> n \<and> n \<le> 90) \<or> n = 95 \<or> (97 \<le> n \<and> n \<le> 122)
        \<or> n = 170 \<or> n = 178 \<or> n = 179 \<or> n = 181 \<or> n = 185 \<or> n = 186
        \<or> (188 \<le> n \<and> n \<le> 190) \<or> (192 \<le> n \<and> n \<le> 214) \<or> (216 \<le> n \<and> n \<le> 246)
        \<or> 248 \<le> n)"

definition is_space :: "char \<Rightarrow> bool" where
  "is_space c =
     (let n = (of_char c :: nat) in
        (9 \<le> n \<and> n \<le> 13) \<or> (28 \<le> n \<and> n \<le> 32) \<or> n = 133 \<or> n = 160)"



definition strip :: "string \<Rightarrow> string" where
  "strip s = rev (dropWhile is_space (rev (dropWhile is_space s)))"


text \<open>\<^verbatim>\<open>str(n)\<close> for an integer.\<close>

fun str_of_nat :: "nat \<Rightarrow> string" where
  "str_of_nat n =
     (if n < 10 then [char_of (48 + n)]
      else str_of_nat (n div 10) @ [char_of (48 + n mod 10)])"

definition str_of_int :: "int \<Rightarrow> string" where
  "str_of_int i = (if i < 0 then CHR ''-'' # str_of_nat (nat (- i)) else str_of_nat (nat i))"

section \<open>Items and item identifiers\<close>

text \<open>
  An item is the dictionary built by \<^verbatim>\<open>RSSFetcher.parse_rss\<close>, which always sets the
  five keys; a missing field is the empty string.
\<close>

record item =
  title :: string
  link :: string
  guid :: string
  pubDate :: string
  description :: string

text \<open>\<^verbatim>\<open>item.get("guid") or item.get("link", "")\<close>\<close>

definition raw_identity :: "item \<Rightarrow> string" where
  "raw_identity it = (if guid it \<noteq> [] then guid it else link it)"

text \<open>\<^verbatim>\<open>re.sub(r'[^\w\-_\.]', '_', raw_id)\<close>, one character at a time.\<close>

definition sanitize_char :: "char \<Rightarrow> char" where
  "sanitize_char c =
     (if word_char c \<or> c = CHR ''-'' \<or> c = CHR ''_'' \<or> c = CHR ''.'' then c else CHR ''_'')"

definition sanitize :: "string \<Rightarrow> string" where
  "sanitize s = map sanitize_char s"

text \<open>\<^verbatim>\<open>f"item_{int(datetime.utcnow().timestamp())}"\<close>; the clock reading is an input.\<close>

definition fallback_id :: "int \<Rightarrow> string" where
  "fallback_id now = ''item_'' @ str_of_int now"

text \<open>Lines 111 to 118 of \<^verbatim>\<open>process_feed\<close>, from the raw identity string.\<close>

definition normalize_id :: "int \<Rightarrow> string \<Rightarrow> string" where
  "normalize_id now raw_id =
     (if raw_id \<noteq> [] then
        (let item_id = take 200 (sanitize raw_id) in
           if item_id = [] \<or> item_id = ''_'' then fallback_id now else item_id)
      else fallback_id now)"

definition make_item_id :: "int \<Rightarrow> item \<Rightarrow> string" where
  "make_item_id now it = normalize_id now (raw_identity it)"

text \<open>\<^verbatim>\<open>RSSFetcher.get_new_items\<close>\<close>

definition get_new_items :: "item list \<Rightarrow> string set \<Rightarrow> item list" where
  "get_new_items items processed_ids =
     filter (\<lambda>it. raw_identity it \<noteq> [] \<and> raw_identity it \<notin> processed_ids) items"

text \<open>\<^verbatim>\<open>RSSFetcher.get_item_xml\<close>\<close>

definition nl :: string where
  "nl = [CHR 0x0A]"

definition get_item_xml :: "item \<Rightarrow> string" where
  "get_item_xml it =
     ''<item>'' @ nl
     @ ''    <title><![CDATA['' @ title it @ '']]></title>'' @ nl
     @ ''    <link>'' @ link it @ ''</link>'' @ nl
     @ ''    <guid>'' @ guid it @ ''</guid>'' @ nl
     @ ''    <pubDate>'' @ pubDate it @ ''</pubDate>'' @ nl
     @ ''    <description><![CDATA['' @ description it @ '']]></description>'' @ nl
     @ ''</item>''"

section \<open>Exceptions, effects and the retry decorator\<close>

text \<open>
  Every \<^verbatim>\<open>raise\<close> of the source is a constructor; \<open>RequestException\<close> stands for
  \<^verbatim>\<open>requests.RequestException\<close> and \<^verbatim>\<open>ConnectionError\<close>, \<open>LibraryError\<close> for any
  other exception raised inside a library call, \<open>RetryError\<close> for the error the retry
  decorator raises once its attempts are used up.
\<close>

datatype exn =
    RequestException string
  | LibraryError string
  | KeyError string
  | ValueError string
  | ConcurrentOperation string
  | ImportFailed int string
  | NoOperationName
  | PollFailed int string
  | OperationFailed string string
  | PollTimeout nat
  | RetryError exn

datatype severity = Info | Warning | Error

datatype jvalue = JStr string | JVec "real list"

type_synonym json_doc = "(string \<times> string list) list"

type_synonym metadata = "(string \<times> string) list"

text \<open>
  The trace of a run: one event per remote call attempted, per \<^verbatim>\<open>time.sleep\<close> of the
  source, and per log line of severity warning or error; \<open>ESummary\<close> is the closing
  info line of a feed pass with its \<^verbatim>\<open>processed\<close> and \<^verbatim>\<open>errors\<close> fields. The other
  info lines and the pauses of the retry decorator are not recorded.
\<close>

datatype event =
    EFetchRss string
  | EReadJson string
  | EWriteJson string json_doc
  | EUpload string string string
  | EFetchHtml string
  | EIngestRag string metadata
  | EImport string
  | EPollOp string
  | ESleep nat
  | EEmbed string
  | EUpsert "(string \<times> jvalue) list list"
  | ELog severity string string
  | ESummary nat nat

text \<open>\<^verbatim>\<open>d.get(key, default)\<close> on the result of a lookup.\<close>

definition opt_default :: "'a \<Rightarrow> 'a option \<Rightarrow> 'a" where
  "opt_default d x = (case x of None \<Rightarrow> d | Some v \<Rightarrow> v)"

type_synonym 'a outcome = "(exn + 'a) \<times> event list"

definition bind_tr :: "'a outcome \<Rightarrow> ('a \<Rightarrow> 'b outcome) \<Rightarrow> 'b outcome" where
  "bind_tr m f =
     (case m of
        (Inl e, tr) \<Rightarrow> (Inl e, tr)
      | (Inr v, tr) \<Rightarrow> (case f v of (r, tr') \<Rightarrow> (r, tr @ tr')))"

text \<open>
  \<^verbatim>\<open>@retry(stop=stop_after_attempt(n), retry=retry_if_exception_type(...))\<close>: attempt
  \<open>k\<close> of the call is \<open>f k\<close> (attempts count from 1). An exception outside the
  retried class propagates as it is; one inside it leads to the next attempt, or to
  \<open>RetryError\<close> after attempt \<open>n\<close>.
\<close>

primrec retry_from :: "(exn \<Rightarrow> bool) \<Rightarrow> (nat \<Rightarrow> 'a outcome) \<Rightarrow> nat \<Rightarrow> nat \<Rightarrow> 'a outcome" where
  "retry_from retryable f k 0 =
     (case f k of
        (Inl e, tr) \<Rightarrow> (if retryable e then Inl (RetryError e) else Inl e, tr)
      | (Inr v, tr) \<Rightarrow> (Inr v, tr))"
| "retry_from retryable f k (Suc left) =
     (case f k of
        (Inl e, tr) \<Rightarrow>
          (if retryable e
           then (case retry_from retryable f (Suc k) left of (r, tr') \<Rightarrow> (r, tr @ tr'))
           else (Inl e, tr))
      | (Inr v, tr) \<Rightarrow> (Inr v, tr))"

definition retry :: "(exn \<Rightarrow> bool) \<Rightarrow> nat \<Rightarrow> (nat \<Rightarrow> 'a outcome) \<Rightarrow> 'a outcome" where
  "retry retryable n f = retry_from retryable f 1 (n - 1)"

definition any_exception :: "exn \<Rightarrow> bool" where
  "any_exception e = True"

definition request_exception :: "exn \<Rightarrow> bool" where
  "request_exception e = (case e of RequestException m \<Rightarrow> True | _ \<Rightarrow> False)"

section \<open>Storage, fetching and the vector index\<close>

text \<open>
  The bucket holds the JSON documents of processed ids, one per feed folder; a document
  is a JSON object whose values are lists of strings, which is what this program writes.
  Whether a call attempt raises is the world's choice: \<open>w k\<close> is what happens at
  attempt \<open>k\<close> of the call.
\<close>

type_synonym store = "string \<rightharpoonup> json_doc"

definition content_type_of :: "string \<Rightarrow> string" where
  "content_type_of blob_path =
     (if suffix ''.xml'' blob_path then ''application/xml''
      else if suffix ''.html'' blob_path then ''text/html''
      else if suffix ''.txt'' blob_path then ''text/plain''
      else if suffix ''.json'' blob_path then ''application/json''
      else ''application/octet-stream'')"

definition unit_result :: "exn option \<Rightarrow> exn + unit" where
  "unit_result x = (case x of Some e \<Rightarrow> Inl e | None \<Rightarrow> Inr ())"

definition upload_file :: "(nat \<Rightarrow> exn option) \<Rightarrow> string \<Rightarrow> string \<Rightarrow> unit outcome" where
  "upload_file w blob_path content =
     retry any_exception 3
       (\<lambda>k. (unit_result (w k), [EUpload blob_path content (content_type_of blob_path)]))"

definition read_json :: "(nat \<Rightarrow> exn option) \<Rightarrow> string \<Rightarrow> store \<Rightarrow> (json_doc option) outcome" where
  "read_json w blob_path s =
     retry any_exception 3
       (\<lambda>k. (case w k of Some e \<Rightarrow> Inl e | None \<Rightarrow> Inr (s blob_path), [EReadJson blob_path]))"

definition write_json :: "(nat \<Rightarrow> exn option) \<Rightarrow> string \<Rightarrow> json_doc \<Rightarrow> store \<Rightarrow> unit outcome \<times> store" where
  "write_json w blob_path data s =
     (case retry any_exception 3 (\<lambda>k. (unit_result (w k), [EWriteJson blob_path data])) of
        (Inl e, tr) \<Rightarrow> ((Inl e, tr), s)
      | (Inr u, tr) \<Rightarrow> ((Inr u, tr), s(blob_path \<mapsto> data)))"

definition fetch_rss :: "(nat \<Rightarrow> exn + string) \<Rightarrow> string \<Rightarrow> string outcome" where
  "fetch_rss w url = retry request_exception 3 (\<lambda>k. (w k, [EFetchRss url]))"

definition fetch_html :: "(nat \<Rightarrow> exn + string) \<Rightarrow> string \<Rightarrow> string outcome" where
  "fetch_html w url = retry request_exception 3 (\<lambda>k. (w k, [EFetchHtml url]))"

text \<open>
  \<^verbatim>\<open>HTMLCleaner.clean_html\<close>: empty input gives the empty text; otherwise the text
  is what the HTML parser extracts, taken from the world.
\<close>

definition clean_html :: "(exn + string) \<Rightarrow> string \<Rightarrow> string outcome" where
  "clean_html w html = (if html = [] then (Inr [], []) else (w, []))"

definition embed_text :: "(nat \<Rightarrow> exn + real list list) \<Rightarrow> string \<Rightarrow> (real list) outcome" where
  "embed_text w text =
     retry any_exception 3
       (\<lambda>k. (case w k of
                Inl e \<Rightarrow> Inl e
              | Inr embeddings \<Rightarrow>
                  (case embeddings of
                     [] \<Rightarrow> Inl (ValueError ''No embeddings returned from model'')
                   | v # rest \<Rightarrow> Inr v),
              [EEmbed text]))"

text \<open>\<^verbatim>\<open>VectorSearchIngester.upsert_vector\<close>: the datapoint dictionary and the call.\<close>

definition make_datapoint :: "real list \<Rightarrow> string \<Rightarrow> metadata \<Rightarrow> (string \<times> jvalue) list" where
  "make_datapoint vector doc_id md =
     [(''datapoint_id'', JStr doc_id), (''feature_vector'', JVec vector)]"

definition upsert_vector :: "(nat \<Rightarrow> exn option) \<Rightarrow> real list \<Rightarrow> string \<Rightarrow> metadata \<Rightarrow> unit outcome" where
  "upsert_vector w vector doc_id md =
     retry any_exception 3
       (\<lambda>k. (unit_result (w k), [EUpsert [make_datapoint vector doc_id md]]))"

section \<open>Processing one feed\<close>

record feed_config =
  fc_folder :: string
  fc_url :: string

record config =
  bucket_name :: string
  min_text_length :: int
  rss_feeds :: "(string \<times> feed_config) list"

text \<open>The remote world as one item meets it, and as one feed pass meets it.\<close>

record item_world =
  iw_now :: int
  iw_processed_at :: string
  iw_upload_xml :: "nat \<Rightarrow> exn option"
  iw_fetch_html :: "nat \<Rightarrow> exn + string"
  iw_upload_html :: "nat \<Rightarrow> exn option"
  iw_clean :: "exn + string"
  iw_upload_text :: "nat \<Rightarrow> exn option"
  iw_rag :: "exn option"
  iw_embed :: "nat \<Rightarrow> exn + real list list"
  iw_upsert :: "nat \<Rightarrow> exn option"

record feed_world =
  fw_fetch_rss :: "nat \<Rightarrow> exn + string"
  fw_parse_rss :: "string \<Rightarrow> exn + item list"
  fw_read_json :: "nat \<Rightarrow> exn option"
  fw_item :: "nat \<Rightarrow> item_world"
  fw_write_json :: "nat \<Rightarrow> exn option"

datatype item_result = Completed | SkippedNoLink | SkippedShort

definition make_metadata :: "string \<Rightarrow> item_world \<Rightarrow> item \<Rightarrow> string \<Rightarrow> metadata" where
  "make_metadata feed_name w it item_id =
     [(''title'', title it), (''link'', link it), (''pubDate'', pubDate it),
      (''feed'', feed_name), (''item_id'', item_id), (''processed_at'', iw_processed_at w)]"

text \<open>
  The call \<^verbatim>\<open>rag_ingester.ingest_to_rag(clean_text, metadata)\<close> as \<^verbatim>\<open>process_feed\<close>
  sees it: \<^verbatim>\<open>process_feed\<close> is handed the ingester as an argument, and the call
  returns nothing or raises, as the world has it.
\<close>

definition ingest_call :: "exn option \<Rightarrow> string \<Rightarrow> metadata \<Rightarrow> unit outcome" where
  "ingest_call w text md = (unit_result w, [EIngestRag text md])"

text \<open>The \<^verbatim>\<open>try\<close> block of the per-item loop, lines 120 to 181.\<close>

definition item_body :: "config \<Rightarrow> string \<Rightarrow> string \<Rightarrow> item_world \<Rightarrow> item \<Rightarrow> string \<Rightarrow> item_result outcome" where
  "item_body cfg feed_name folder w it item_id =
     bind_tr (upload_file (iw_upload_xml w) (folder @ ''/raw_xml/'' @ item_id @ ''.xml'')
                          (get_item_xml it)) (\<lambda>u1.
       if link it = [] then
         (Inr SkippedNoLink, [ELog Warning ''Item missing link, skipping'' item_id])
       else
         bind_tr (fetch_html (iw_fetch_html w) (link it)) (\<lambda>html_content.
         bind_tr (upload_file (iw_upload_html w) (folder @ ''/raw_html/'' @ item_id @ ''.html'')
                              html_content) (\<lambda>u2.
         bind_tr (clean_html (iw_clean w) html_content) (\<lambda>clean_text.
           if clean_text = [] \<or> int (length (strip clean_text)) < min_text_length cfg then
             (Inr SkippedShort, [ELog Warning ''Cleaned text too short, skipping'' item_id])
           else
             bind_tr (upload_file (iw_upload_text w) (folder @ ''/clean/'' @ item_id @ ''.txt'')
                                  clean_text) (\<lambda>u3.
             bind_tr (ingest_call (iw_rag w) clean_text
                                  (make_metadata feed_name w it item_id)) (\<lambda>u4.
             bind_tr (Inr (), [ESleep 2]) (\<lambda>u5.
             bind_tr (embed_text (iw_embed w) clean_text) (\<lambda>embedding.
             bind_tr (upsert_vector (iw_upsert w) embedding item_id
                                    (make_metadata feed_name w it item_id)) (\<lambda>u6.
               (Inr Completed, []))))))))))"

record loop_state =
  new_processed_ids :: "string list"
  processed_count :: nat
  error_count :: nat
  ls_trace :: "event list"

definition init_state :: loop_state where
  "init_state = \<lparr>new_processed_ids = [], processed_count = 0, error_count = 0, ls_trace = []\<rparr>"

text \<open>One iteration of \<^verbatim>\<open>for item in new_items\<close>, with its \<^verbatim>\<open>except\<close> clause.\<close>

definition item_step :: "config \<Rightarrow> string \<Rightarrow> string \<Rightarrow> item_world \<Rightarrow> item \<Rightarrow> loop_state \<Rightarrow> loop_state" where
  "item_step cfg feed_name folder w it st =
     (let item_id = make_item_id (iw_now w) it in
        case item_body cfg feed_name folder w it item_id of
          (Inl e, tr) \<Rightarrow>
            st\<lparr>error_count := error_count st + 1,
               ls_trace := ls_trace st @ tr @ [ELog Error ''Error processing item'' item_id]\<rparr>
        | (Inr Completed, tr) \<Rightarrow>
            st\<lparr>new_processed_ids := new_processed_ids st @ [item_id],
               processed_count := processed_count st + 1,
               ls_trace := ls_trace st @ tr\<rparr>
        | (Inr skipped, tr) \<Rightarrow> st\<lparr>ls_trace := ls_trace st @ tr\<rparr>)"

text \<open>The loop; the item at position \<open>i\<close> of \<^verbatim>\<open>new_items\<close> meets the world \<open>w i\<close>.\<close>

fun items_loop :: "config \<Rightarrow> string \<Rightarrow> string \<Rightarrow> (nat \<Rightarrow> item_world) \<Rightarrow> nat \<Rightarrow> item list \<Rightarrow> loop_state \<Rightarrow> loop_state" where
  "items_loop cfg feed_name folder w i [] st = st"
| "items_loop cfg feed_name folder w i (it # its) st =
     items_loop cfg feed_name folder w (Suc i) its (item_step cfg feed_name folder (w i) it st)"

text \<open>\<^verbatim>\<open>gcs.read_json(path) or {"ids": []}\<close>\<close>

definition or_default_doc :: "json_doc option \<Rightarrow> json_doc" where
  "or_default_doc loaded =
     (case loaded of None \<Rightarrow> [(''ids'', [])] | Some d \<Rightarrow> if d = [] then [(''ids'', [])] else d)"

definition doc_ids :: "json_doc \<Rightarrow> string list" where
  "doc_ids d = opt_default [] (map_of d ''ids'')"

definition processed_ids_path :: "feed_config \<Rightarrow> string" where
  "processed_ids_path fc = fc_folder fc @ ''/processed_ids.json''"

text \<open>Lines 85 and 86: fetch the feed and parse it.\<close>

definition fetch_items :: "feed_world \<Rightarrow> feed_config \<Rightarrow> (item list) outcome" where
  "fetch_items fw fc =
     bind_tr (fetch_rss (fw_fetch_rss fw) (fc_url fc)) (\<lambda>rss_xml. (fw_parse_rss fw rss_xml, []))"

text \<open>Lines 90 and 91: load the document of processed ids.\<close>

definition load_processed :: "feed_world \<Rightarrow> feed_config \<Rightarrow> store \<Rightarrow> json_doc outcome" where
  "load_processed fw fc s =
     bind_tr (read_json (fw_read_json fw) (processed_ids_path fc) s)
             (\<lambda>loaded. (Inr (or_default_doc loaded), []))"

text \<open>Lines 85 to 96: the loaded document and the new-item delta.\<close>

definition detect_new_items :: "feed_world \<Rightarrow> feed_config \<Rightarrow> store \<Rightarrow> (json_doc \<times> item list) outcome" where
  "detect_new_items fw fc s =
     bind_tr (fetch_items fw fc) (\<lambda>items.
     bind_tr (load_processed fw fc s) (\<lambda>processed_ids.
       (Inr (processed_ids, get_new_items items (set (doc_ids processed_ids))), [])))"

text \<open>
  Lines 188 to 194, after the loop: extend the document by the new ids and write it,
  when there are any, then report the counts.
\<close>

definition commit_processed :: "feed_world \<Rightarrow> feed_config \<Rightarrow> json_doc \<Rightarrow> loop_state \<Rightarrow> store \<Rightarrow> unit outcome \<times> store" where
  "commit_processed fw fc processed_ids st s =
     (if new_processed_ids st \<noteq> [] then
        (case map_of processed_ids ''ids'' of
           None \<Rightarrow> ((Inl (KeyError ''ids''), []), s)
         | Some ids \<Rightarrow>
             (case write_json (fw_write_json fw) (processed_ids_path fc)
                     (AList.update ''ids'' (ids @ new_processed_ids st) processed_ids) s of
                ((Inl e, tr3), s') \<Rightarrow> ((Inl e, tr3), s')
              | ((Inr u, tr3), s') \<Rightarrow>
                  ((Inr (), tr3 @ [ESummary (processed_count st) (error_count st)]), s')))
      else ((Inr (), [ESummary (processed_count st) (error_count st)]), s))"

text \<open>The body of the outer \<^verbatim>\<open>try\<close> of \<^verbatim>\<open>process_feed\<close>, lines 83 to 194.\<close>

definition process_feed_body :: "config \<Rightarrow> feed_world \<Rightarrow> string \<Rightarrow> feed_config \<Rightarrow> store \<Rightarrow> unit outcome \<times> store" where
  "process_feed_body cfg fw feed_name fc s =
     (case detect_new_items fw fc s of
        (Inl e, tr0) \<Rightarrow> ((Inl e, tr0), s)
      | (Inr (processed_ids, new_items), tr0) \<Rightarrow>
          if new_items = [] then ((Inr (), tr0), s)
          else
            (let st = items_loop cfg feed_name (fc_folder fc) (fw_item fw) 0 new_items init_state in
             case commit_processed fw fc processed_ids st s of
               ((r, tr3), s') \<Rightarrow> ((r, tr0 @ ls_trace st @ tr3), s')))"

text \<open>\<^verbatim>\<open>process_feed\<close>: the body, and the \<^verbatim>\<open>except\<close> clause that logs and re-raises.\<close>

definition process_feed :: "config \<Rightarrow> feed_world \<Rightarrow> string \<Rightarrow> feed_config \<Rightarrow> store \<Rightarrow> unit outcome \<times> store" where
  "process_feed cfg fw feed_name fc s =
     (case process_feed_body cfg fw feed_name fc s of
        ((Inl e, tr), s') \<Rightarrow> ((Inl e, tr @ [ELog Error ''Error processing feed'' feed_name]), s')
      | ((Inr u, tr), s') \<Rightarrow> ((Inr u, tr), s'))"

section \<open>The run\<close>

record world =
  w_init :: "exn option"
  w_feed :: "string \<Rightarrow> feed_world"

text \<open>\<^verbatim>\<open>for feed_name, feed_config in RSS_FEEDS.items(): process_feed(...)\<close>\<close>

fun run_feeds :: "config \<Rightarrow> world \<Rightarrow> (string \<times> feed_config) list \<Rightarrow> store \<Rightarrow> unit outcome \<times> store" where
  "run_feeds cfg w [] s = ((Inr (), []), s)"
| "run_feeds cfg w ((feed_name, fc) # rest) s =
     (case process_feed cfg (w_feed w feed_name) feed_name fc s of
        ((Inl e, tr), s') \<Rightarrow> ((Inl e, tr), s')
      | ((Inr u, tr), s') \<Rightarrow>
          (case run_feeds cfg w rest s' of ((r, tr'), s'') \<Rightarrow> ((r, tr @ tr'), s'')))"

text \<open>\<^verbatim>\<open>main\<close>: the exit status, the bucket afterwards and the trace.\<close>

definition main :: "config \<Rightarrow> world \<Rightarrow> store \<Rightarrow> int \<times> store \<times> event list" where
  "main cfg w s =
     (case w_init w of
        Some e \<Rightarrow> (1, s, [ELog Error ''RSS ingestion job failed'' []])
      | None \<Rightarrow>
          (case run_feeds cfg w (rss_feeds cfg) s of
             ((Inl e, tr), s') \<Rightarrow> (1, s', tr @ [ELog Error ''RSS ingestion job failed'' []])
           | ((Inr u, tr), s') \<Rightarrow> (0, s', tr)))"

section \<open>Corpus import: submission and poll loop\<close>



record op_body =
  ob_done :: bool
  ob_error :: "(string option \<times> string option) option"
  ob_imported :: "int option"
  ob_skipped :: "int option"

record op_response =
  or_status :: int
  or_text :: string
  or_json :: "op_body option"




text \<open>
  The \<^verbatim>\<open>while poll_attempt < max_poll_attempts ... else\<close> loop. It ends by
  \<^verbatim>\<open>break\<close> or by an exception; the counts it reads from a finished operation are
  written to the log and used nowhere else, so the loop has no result.
\<close>

function poll_loop :: "(nat \<Rightarrow> exn + op_response) \<Rightarrow> string \<Rightarrow> nat \<Rightarrow> nat \<Rightarrow> unit outcome" where
  "poll_loop polls operation_name max_poll_attempts poll_attempt =
     (if poll_attempt < max_poll_attempts then
        (case polls (Suc poll_attempt) of
           Inl e \<Rightarrow> (Inl e, [EPollOp operation_name])
         | Inr r \<Rightarrow>
             if or_status r \<noteq> 200
             then (Inl (PollFailed (or_status r) (or_text r)), [EPollOp operation_name])
             else
               (case or_json r of
                  None \<Rightarrow> (Inl (LibraryError ''JSONDecodeError''), [EPollOp operation_name])
                | Some b \<Rightarrow>
                    if ob_done b then
                      (case ob_error b of
                         Some (m, c) \<Rightarrow>
                           (Inl (OperationFailed (opt_default ''Unknown error'' m)
                                                 (opt_default ''unknown'' c)),
                            [EPollOp operation_name])
                       | None \<Rightarrow> (Inr (), [EPollOp operation_name]))
                    else
                      (case poll_loop polls operation_name max_poll_attempts (Suc poll_attempt) of
                         (res, tr) \<Rightarrow> (res, EPollOp operation_name # ESleep 5 # tr))))
      else (Inl (PollTimeout max_poll_attempts), []))"
  by pat_completeness auto
termination
  by (relation "measure (\<lambda>(polls, operation_name, max_poll_attempts, poll_attempt).
                            max_poll_attempts - poll_attempt)") auto

declare poll_loop.simps [simp del]

declare str_of_nat.simps [simp del]




section \<open>Vocabulary of the properties\<close>

text \<open>An identity string for which the code falls back to the clock.\<close>

definition degenerate :: "string \<Rightarrow> bool" where
  "degenerate raw_id = (raw_id = [] \<or> take 200 (sanitize raw_id) = ''_'')"

text \<open>Reading a decimal numeral back, to tell the printed clock readings apart.\<close>

definition digit_value :: "char \<Rightarrow> nat" where
  "digit_value c = of_char c - 48"

definition nat_of_str :: "string \<Rightarrow> nat" where
  "nat_of_str s = foldl (\<lambda>a c. 10 * a + digit_value c) 0 s"

text \<open>Status checks in a trace, and what one answer of the operation endpoint means.\<close>

definition is_status_check :: "event \<Rightarrow> bool" where
  "is_status_check ev = (case ev of EPollOp n \<Rightarrow> True | _ \<Rightarrow> False)"

definition status_checks :: "event list \<Rightarrow> nat" where
  "status_checks tr = length (filter is_status_check tr)"

definition is_import :: "event \<Rightarrow> bool" where
  "is_import ev = (case ev of EImport u \<Rightarrow> True | _ \<Rightarrow> False)"

definition submissions :: "event list \<Rightarrow> nat" where
  "submissions tr = length (filter is_import tr)"

definition is_write :: "event \<Rightarrow> bool" where
  "is_write ev = (case ev of EWriteJson p d \<Rightarrow> True | _ \<Rightarrow> False)"

definition no_writes :: "event list \<Rightarrow> bool" where
  "no_writes tr = (filter is_write tr = [])"

definition still_running :: "exn + op_response \<Rightarrow> bool" where
  "still_running x =
     (case x of
        Inl e \<Rightarrow> False
      | Inr r \<Rightarrow> or_status r = 200 \<and> (case or_json r of None \<Rightarrow> False | Some b \<Rightarrow> \<not> ob_done b))"

definition terminal_success :: "exn + op_response \<Rightarrow> bool" where
  "terminal_success x =
     (case x of
        Inl e \<Rightarrow> False
      | Inr r \<Rightarrow>
          or_status r = 200
          \<and> (case or_json r of None \<Rightarrow> False | Some b \<Rightarrow> ob_done b \<and> ob_error b = None))"


definition failed :: "'a outcome \<Rightarrow> bool" where
  "failed x = (case fst x of Inl e \<Rightarrow> True | Inr v \<Rightarrow> False)"

text \<open>
  One item of the delta together with the world it meets: how its \<^verbatim>\<open>try\<close> block
  ends, the id it is given, and the events it leaves in the trace.
\<close>

definition paired :: "(nat \<Rightarrow> item_world) \<Rightarrow> nat \<Rightarrow> item list \<Rightarrow> (item_world \<times> item) list" where
  "paired w i its = zip (map w [i..<i + length its]) its"

definition pair_id :: "item_world \<times> item \<Rightarrow> string" where
  "pair_id p = make_item_id (iw_now (fst p)) (snd p)"

definition run_item :: "config \<Rightarrow> string \<Rightarrow> string \<Rightarrow> item_world \<times> item \<Rightarrow> item_result outcome" where
  "run_item cfg feed_name folder p = item_body cfg feed_name folder (fst p) (snd p) (pair_id p)"

definition item_raises :: "config \<Rightarrow> string \<Rightarrow> string \<Rightarrow> item_world \<times> item \<Rightarrow> bool" where
  "item_raises cfg feed_name folder p = failed (run_item cfg feed_name folder p)"

definition item_completes :: "config \<Rightarrow> string \<Rightarrow> string \<Rightarrow> item_world \<times> item \<Rightarrow> bool" where
  "item_completes cfg feed_name folder p = (fst (run_item cfg feed_name folder p) = Inr Completed)"

definition item_abandoned :: "config \<Rightarrow> string \<Rightarrow> string \<Rightarrow> item_world \<times> item \<Rightarrow> bool" where
  "item_abandoned cfg feed_name folder p =
     (fst (run_item cfg feed_name folder p) = Inr SkippedNoLink
      \<or> fst (run_item cfg feed_name folder p) = Inr SkippedShort)"

definition item_events :: "config \<Rightarrow> string \<Rightarrow> string \<Rightarrow> item_world \<times> item \<Rightarrow> event list" where
  "item_events cfg feed_name folder p =
     (case run_item cfg feed_name folder p of
        (Inl e, tr) \<Rightarrow> tr @ [ELog Error ''Error processing item'' (pair_id p)]
      | (Inr r, tr) \<Rightarrow> tr)"

section \<open>Example worlds\<close>

definition op_running :: "exn + op_response" where
  "op_running =
     Inr \<lparr>or_status = 200, or_text = [],
          or_json = Some \<lparr>ob_done = False, ob_error = None,
                          ob_imported = None, ob_skipped = None\<rparr>\<rparr>"

definition op_done :: "exn + op_response" where
  "op_done =
     Inr \<lparr>or_status = 200, or_text = [],
          or_json = Some \<lparr>ob_done = True, ob_error = None,
                          ob_imported = Some 1, ob_skipped = Some 0\<rparr>\<rparr>"


definition polls_done_at_3 :: "nat \<Rightarrow> exn + op_response" where
  "polls_done_at_3 k = (if k < 3 then op_running else op_done)"

definition polls_never_done :: "nat \<Rightarrow> exn + op_response" where
  "polls_never_done k = op_running"





definition item_world_ok :: item_world where
  "item_world_ok =
     \<lparr>iw_now = 1700000000, iw_processed_at = ''2023-11-14T22:13:20Z'',
      iw_upload_xml = (\<lambda>k. None), iw_fetch_html = (\<lambda>k. Inr ''<html>post</html>''),
      iw_upload_html = (\<lambda>k. None), iw_clean = Inr ''A long enough article text'',
      iw_upload_text = (\<lambda>k. None), iw_rag = None,
      iw_embed = (\<lambda>k. Inr [[1 / 2, 1 / 4]]), iw_upsert = (\<lambda>k. None)\<rparr>"

definition item_world_down :: item_world where
  "item_world_down = item_world_ok\<lparr>iw_embed := (\<lambda>k. Inl (LibraryError ''unavailable''))\<rparr>"

definition feed_world_ok :: "item list \<Rightarrow> feed_world" where
  "feed_world_ok items =
     \<lparr>fw_fetch_rss = (\<lambda>k. Inr ''<rss/>''), fw_parse_rss = (\<lambda>x. Inr items),
      fw_read_json = (\<lambda>k. None), fw_item = (\<lambda>i. item_world_ok),
      fw_write_json = (\<lambda>k. None)\<rparr>"

definition feed_world_unreachable :: feed_world where
  "feed_world_unreachable =
     (feed_world_ok [])\<lparr>fw_fetch_rss := (\<lambda>k. Inl (RequestException ''503''))\<rparr>"

definition feed_world_no_save :: "item list \<Rightarrow> feed_world" where
  "feed_world_no_save items =
     (feed_world_ok items)\<lparr>fw_write_json := (\<lambda>k. Some (LibraryError ''storage unavailable''))\<rparr>"

definition dev_feed :: feed_config where
  "dev_feed = \<lparr>fc_folder = ''dev'', fc_url = ''https://feeds.example/dev''\<rparr>"

definition official_feed :: feed_config where
  "official_feed = \<lparr>fc_folder = ''official'', fc_url = ''https://feeds.example/official''\<rparr>"

definition example_cfg :: config where
  "example_cfg =
     \<lparr>bucket_name = ''bucket'', min_text_length = 10,
      rss_feeds = [(''dev'', dev_feed), (''official'', official_feed)]\<rparr>"

definition post_item :: item where
  "post_item =
     \<lparr>title = ''Post'', link = ''https://blog.example/post'',
      guid = ''https://blog.example/?p=1'', pubDate = ''Tue, 14 Nov 2023'',
      description = ''A post''\<rparr>"

definition plain_item :: item where
  "plain_item = post_item\<lparr>guid := ''post-1''\<rparr>"

definition stub_item :: item where
  "stub_item = post_item\<lparr>guid := ''stub-7'', link := []\<rparr>"





definition example_item_worlds :: "nat \<Rightarrow> item_world" where
  "example_item_worlds i = (if i = 0 then item_world_down else item_world_ok)"

definition feed_world_mixed :: "item list \<Rightarrow> feed_world" where
  "feed_world_mixed items = (feed_world_ok items)\<lparr>fw_item := example_item_worlds\<rparr>"

definition example_world :: world where
  "example_world =
     \<lparr>w_init = None,
      w_feed = (\<lambda>n. if n = ''dev'' then feed_world_unreachable else feed_world_ok [plain_item])\<rparr>"

definition example_world_no_save :: world where
  "example_world_no_save =
     \<lparr>w_init = None,
      w_feed = (\<lambda>n. if n = ''dev'' then feed_world_no_save [plain_item]
                     else feed_world_ok [plain_item])\<rparr>"

definition example_md :: metadata where
  "example_md = make_metadata ''dev'' item_world_ok post_item ''post-1''"

section \<open>The retry decorator\<close>

lemma retry_from_success:
  "fst (f k) = Inr v \<Longrightarrow> retry_from retryable f k n = f k"
  by (cases n; cases "f k") (auto split: prod.splits sum.splits)

lemma retry_success: "fst (f 1) = Inr v \<Longrightarrow> retry retryable n f = f 1"
  by (simp add: retry_def retry_from_success)

lemma retry_from_single:
  "\<exists>m. m \<le> n \<and> snd (retry_from P (\<lambda>j. (g j, [ev])) k n) = replicate (Suc m) ev"
proof (induction n arbitrary: k)
  case 0
  show ?case by (auto split: sum.splits)
next
  case (Suc n)
  obtain m where m: "m \<le> n"
      "snd (retry_from P (\<lambda>j. (g j, [ev])) (Suc k) n) = replicate (Suc m) ev"
    using Suc.IH [of "Suc k"] by blast
  show ?case
  proof (cases "g k")
    case (Inr v)
    then have "snd (retry_from P (\<lambda>j. (g j, [ev])) k (Suc n)) = replicate (Suc 0) ev" by simp
    then show ?thesis by blast
  next
    case (Inl ex)
    show ?thesis
    proof (cases "P ex")
      case False
      then have "snd (retry_from P (\<lambda>j. (g j, [ev])) k (Suc n)) = replicate (Suc 0) ev"
        using Inl by simp
      then show ?thesis by blast
    next
      case True
      then have "snd (retry_from P (\<lambda>j. (g j, [ev])) k (Suc n)) = replicate (Suc (Suc m)) ev"
        using Inl m(2) by (auto split: prod.splits)
      then show ?thesis using m(1) by (metis Suc_le_mono)
    qed
  qed
qed

lemma retry_single_trace:
  "\<exists>m. m < n \<and> snd (retry P n (\<lambda>j. (g j, [ev]))) = replicate (Suc m) ev" if "0 < n"
proof -
  obtain m where "m \<le> n - 1" "snd (retry_from P (\<lambda>j. (g j, [ev])) 1 (n - 1)) = replicate (Suc m) ev"
    using retry_from_single [of "n - 1" P g ev 1] by blast
  then show ?thesis using that unfolding retry_def by (intro exI [of _ m]) auto
qed


lemma bind_tr_Inl: "fst m = Inl e \<Longrightarrow> bind_tr m g = (Inl e, snd m)"
  by (cases m) (simp add: bind_tr_def)

lemma bind_tr_Inr: "fst m = Inr v \<Longrightarrow> bind_tr m g = (fst (g v), snd m @ snd (g v))"
  by (cases m; cases "g v") (simp add: bind_tr_def)





lemma fst_bind_tr:
  "fst (bind_tr m g) = (case fst m of Inl e \<Rightarrow> Inl e | Inr v \<Rightarrow> fst (g v))"
  by (cases m) (auto simp: bind_tr_def split: sum.splits prod.splits)

lemma unit_result_Inr: "unit_result x = Inr u \<longleftrightarrow> x = None"
  by (cases x) (simp_all add: unit_result_def)

lemma item_completes_steps:
  assumes "item_completes cfg f fo p"
  shows "link (snd p) \<noteq> []
    \<and> fst (upload_file (iw_upload_xml (fst p)) (fo @ ''/raw_xml/'' @ pair_id p @ ''.xml'')
                        (get_item_xml (snd p))) = Inr ()
    \<and> (\<exists>html text v.
          fst (fetch_html (iw_fetch_html (fst p)) (link (snd p))) = Inr html
        \<and> fst (upload_file (iw_upload_html (fst p)) (fo @ ''/raw_html/'' @ pair_id p @ ''.html'')
                            html) = Inr ()
        \<and> fst (clean_html (iw_clean (fst p)) html) = Inr text
        \<and> text \<noteq> [] \<and> min_text_length cfg \<le> int (length (strip text))
        \<and> fst (upload_file (iw_upload_text (fst p)) (fo @ ''/clean/'' @ pair_id p @ ''.txt'')
                            text) = Inr ()
        \<and> iw_rag (fst p) = None
        \<and> fst (embed_text (iw_embed (fst p)) text) = Inr v
        \<and> fst (upsert_vector (iw_upsert (fst p)) v (pair_id p)
                              (make_metadata f (fst p) (snd p) (pair_id p))) = Inr ())"
  using assms
  unfolding item_completes_def run_item_def item_body_def
  by (auto simp: fst_bind_tr ingest_call_def unit_result_Inr split: sum.splits if_splits)


section \<open>Item identifiers\<close>

lemma fallback_id_nonempty: "fallback_id now \<noteq> []"
  by (simp add: fallback_id_def)

lemma normalize_id_nonempty: "normalize_id now raw_id \<noteq> []"
  by (simp add: normalize_id_def Let_def fallback_id_nonempty)

lemma digit_value_char_of: "d < 10 \<Longrightarrow> digit_value (char_of (48 + d)) = d"
  by (simp add: digit_value_def)

lemma nat_of_str_snoc: "nat_of_str (s @ [c]) = 10 * nat_of_str s + digit_value c"
  by (simp add: nat_of_str_def)

lemma nat_of_str_of_nat: "nat_of_str (str_of_nat n) = n"
proof (induction n rule: str_of_nat.induct)
  case (1 n)
  show ?case
  proof (cases "n < 10")
    case True
    then show ?thesis
      by (subst str_of_nat.simps) (simp add: nat_of_str_def digit_value_char_of)
  next
    case False
    then have "nat_of_str (str_of_nat (n div 10)) = n div 10" using 1 by simp
    then show ?thesis using False
      by (subst str_of_nat.simps) (simp add: nat_of_str_snoc digit_value_char_of)
  qed
qed

lemma str_of_nat_inj: "str_of_nat m = str_of_nat n \<Longrightarrow> m = n"
  by (metis nat_of_str_of_nat)

lemma str_of_nat_nonempty: "str_of_nat n \<noteq> []"
  by (subst str_of_nat.simps) simp

lemma str_of_nat_digits: "c \<in> set (str_of_nat n) \<Longrightarrow> 48 \<le> (of_char c :: nat) \<and> (of_char c :: nat) \<le> 57"
proof (induction n rule: str_of_nat.induct)
  case (1 n)
  show ?case
  proof (cases "n < 10")
    case True
    then show ?thesis using "1.prems"
      by (subst (asm) str_of_nat.simps) auto
  next
    case False
    have m: "n mod 10 < 10" by simp
    from "1.prems" False have "c \<in> set (str_of_nat (n div 10)) \<or> c = char_of (48 + n mod 10)"
      by (subst (asm) str_of_nat.simps) auto
    then show ?thesis
    proof
      assume "c \<in> set (str_of_nat (n div 10))"
      then show ?thesis using 1 False by simp
    next
      assume c: "c = char_of (48 + n mod 10)"
      have "(of_char c :: nat) = 48 + n mod 10" using m unfolding c by simp
      then show ?thesis using m by simp
    qed
  qed
qed

lemma str_of_nat_no_minus: "str_of_nat n \<noteq> CHR ''-'' # s"
proof
  assume h: "str_of_nat n = CHR ''-'' # s"
  then have "CHR ''-'' \<in> set (str_of_nat n)" by simp
  from str_of_nat_digits [OF this] show False by simp
qed

lemma str_of_int_inj: "str_of_int i = str_of_int j \<longleftrightarrow> i = j"
proof
  assume h: "str_of_int i = str_of_int j"
  show "i = j"
  proof (cases "i < 0"; cases "j < 0")
    assume "i < 0" "j < 0"
    then have "nat (- i) = nat (- j)" using h str_of_nat_inj by (simp add: str_of_int_def)
    then show ?thesis using \<open>i < 0\<close> \<open>j < 0\<close> by simp
  next
    assume "i < 0" "\<not> j < 0"
    then show ?thesis using h str_of_nat_no_minus [of "nat j" "str_of_nat (nat (- i))"]
      by (simp add: str_of_int_def)
  next
    assume "\<not> i < 0" "j < 0"
    then show ?thesis using h str_of_nat_no_minus [of "nat i" "str_of_nat (nat (- j))"]
      by (simp add: str_of_int_def)
  next
    assume "\<not> i < 0" "\<not> j < 0"
    then have "nat i = nat j" using h str_of_nat_inj by (simp add: str_of_int_def)
    then show ?thesis using \<open>\<not> i < 0\<close> \<open>\<not> j < 0\<close> by simp
  qed
qed simp

lemma fallback_id_inj: "fallback_id t1 = fallback_id t2 \<longleftrightarrow> t1 = t2"
  by (simp add: fallback_id_def str_of_int_inj)

text \<open>
  C9, as stated, fails: the identity \<open>/\<close> is normalised to \<open>_\<close>, which the code
  replaces by an id made from the clock, so two computations from the same string at
  different seconds give different ids.
\<close>

theorem C9_counterexample: "normalize_id 0 ''/'' \<noteq> normalize_id 1 ''/''"
  by (simp add: normalize_id_def sanitize_def sanitize_char_def word_char_def
                fallback_id_def str_of_int_def str_of_nat.simps)

text \<open>
  C9, amended: for every identity string that is not degenerate (not empty, and not
  normalised to the single character \<open>_\<close>) the ItemId does not depend on the clock: it
  is the string with every character outside \<^verbatim>\<open>[\w.-]\<close> replaced by \<open>_\<close>, cut to
  200 characters. For every empty or degenerate identity the id is the fallback
  \<open>item_\<close> followed by the clock's seconds in decimal; it is never empty, and two
  computations from the same such identity give the same id if and only if they read
  the same second.
\<close>

theorem C9_item_id_normalization:
  "(\<not> degenerate raw_id \<longrightarrow>
      normalize_id t1 raw_id = normalize_id t2 raw_id
      \<and> normalize_id t1 raw_id = take 200 (map sanitize_char raw_id)
      \<and> length (normalize_id t1 raw_id) \<le> 200)
   \<and> (degenerate raw_id \<longrightarrow>
      normalize_id t1 raw_id = ''item_'' @ str_of_int t1
      \<and> normalize_id t1 raw_id \<noteq> []
      \<and> (normalize_id t1 raw_id = normalize_id t2 raw_id \<longleftrightarrow> t1 = t2))"
  unfolding degenerate_def normalize_id_def sanitize_def fallback_id_def Let_def
  by (cases raw_id) (simp_all add: str_of_int_inj)

theorem C9_item_id_normalization_witness:
  "\<not> degenerate ''a/b'' \<and> normalize_id 0 ''a/b'' = normalize_id 1 ''a/b''
   \<and> normalize_id 0 ''a/b'' = ''a_b''
   \<and> degenerate ''/'' \<and> normalize_id 5 ''/'' = ''item_5''
   \<and> normalize_id 5 ''/'' \<noteq> normalize_id 6 ''/''"
proof -
  have e1: "\<not> degenerate ''a/b''" by code_simp
  have e2: "degenerate ''/''" by code_simp
  have e3: "take 200 (map sanitize_char ''a/b'') = ''a_b''" by code_simp
  have e4: "str_of_int 5 = ''5''" by code_simp
  show ?thesis
    using C9_item_id_normalization [of "''a/b''" 0 1] C9_item_id_normalization [of "''/''" 5 6]
          e1 e2 e3 e4
    by auto
qed

section \<open>The per-item loop\<close>

lemma paired_Nil: "paired w i [] = []"
  by (simp add: paired_def)

lemma paired_Cons: "paired w i (it # its) = (w i, it) # paired w (Suc i) its"
proof -
  have "[i..<i + length (it # its)] = i # [Suc i..<Suc i + length its]"
    by (simp add: upt_conv_Cons del: upt_Suc)
  then show ?thesis by (simp add: paired_def del: upt_Suc)
qed

lemma items_loop_foldl:
  "items_loop cfg f fo w i its st
     = foldl (\<lambda>st p. item_step cfg f fo (fst p) (snd p) st) st (paired w i its)"
  by (induction its arbitrary: i st) (simp_all add: paired_Nil paired_Cons)

lemma outcome_cases:
  "item_raises cfg f fo p \<or> item_completes cfg f fo p \<or> item_abandoned cfg f fo p"
  unfolding item_raises_def item_completes_def item_abandoned_def failed_def
  by (cases "fst (run_item cfg f fo p)") (auto split: sum.splits intro: item_result.exhaust)

lemma outcome_exclusive:
  "\<not> (item_raises cfg f fo p \<and> item_completes cfg f fo p)"
  "\<not> (item_raises cfg f fo p \<and> item_abandoned cfg f fo p)"
  "\<not> (item_completes cfg f fo p \<and> item_abandoned cfg f fo p)"
  unfolding item_raises_def item_completes_def item_abandoned_def failed_def
  by (auto split: sum.splits)

lemma item_step_ids:
  "new_processed_ids (item_step cfg f fo (fst p) (snd p) st)
     = new_processed_ids st @ (if item_completes cfg f fo p then [pair_id p] else [])"
  unfolding item_step_def item_completes_def run_item_def pair_id_def Let_def
  by (auto split: prod.splits sum.splits item_result.splits)

lemma item_step_processed:
  "processed_count (item_step cfg f fo (fst p) (snd p) st)
     = processed_count st + (if item_completes cfg f fo p then 1 else 0)"
  unfolding item_step_def item_completes_def run_item_def pair_id_def Let_def
  by (auto split: prod.splits sum.splits item_result.splits)

lemma item_step_errors:
  "error_count (item_step cfg f fo (fst p) (snd p) st)
     = error_count st + (if item_raises cfg f fo p then 1 else 0)"
  unfolding item_step_def item_raises_def failed_def run_item_def pair_id_def Let_def
  by (auto split: prod.splits sum.splits item_result.splits)

lemma item_step_trace:
  "ls_trace (item_step cfg f fo (fst p) (snd p) st)
     = ls_trace st @ item_events cfg f fo p"
  unfolding item_step_def item_events_def run_item_def pair_id_def Let_def
  by (auto split: prod.splits sum.splits item_result.splits)

lemma foldl_ids:
  "new_processed_ids (foldl (\<lambda>st p. item_step cfg f fo (fst p) (snd p) st) st ps)
     = new_processed_ids st @ map pair_id (filter (item_completes cfg f fo) ps)"
  by (induction ps arbitrary: st) (simp_all add: item_step_ids)

lemma foldl_processed:
  "processed_count (foldl (\<lambda>st p. item_step cfg f fo (fst p) (snd p) st) st ps)
     = processed_count st + length (filter (item_completes cfg f fo) ps)"
  by (induction ps arbitrary: st) (simp_all add: item_step_processed)

lemma foldl_errors:
  "error_count (foldl (\<lambda>st p. item_step cfg f fo (fst p) (snd p) st) st ps)
     = error_count st + length (filter (item_raises cfg f fo) ps)"
  by (induction ps arbitrary: st) (simp_all add: item_step_errors)

lemma foldl_trace:
  "ls_trace (foldl (\<lambda>st p. item_step cfg f fo (fst p) (snd p) st) st ps)
     = ls_trace st @ concat (map (item_events cfg f fo) ps)"
  by (induction ps arbitrary: st) (simp_all add: item_step_trace)









section \<open>The end-of-pass commit\<close>

lemma no_writes_Nil: "no_writes []"
  by (simp add: no_writes_def)

lemma no_writes_append: "no_writes (a @ b) \<longleftrightarrow> no_writes a \<and> no_writes b"
  by (simp add: no_writes_def)

lemma no_writes_retry_single:
  "0 < n \<Longrightarrow> \<not> is_write ev \<Longrightarrow> no_writes (snd (retry P n (\<lambda>j. (g j, [ev]))))"
  using retry_single_trace [of n P g ev] by (auto simp: no_writes_def)

lemma no_writes_bind:
  assumes "no_writes (snd m)" and "\<And>v. no_writes (snd (g v))"
  shows "no_writes (snd (bind_tr m g))"
proof (cases "fst m")
  case (Inl ex)
  then show ?thesis using assms(1) bind_tr_Inl [of m ex g] by simp
next
  case (Inr v)
  then show ?thesis using assms bind_tr_Inr [of m v g] by (simp add: no_writes_append)
qed

lemma no_writes_upload: "no_writes (snd (upload_file w path content))"
  unfolding upload_file_def by (rule no_writes_retry_single) (simp_all add: is_write_def)

lemma no_writes_fetch_html: "no_writes (snd (fetch_html w url))"
  unfolding fetch_html_def by (rule no_writes_retry_single) (simp_all add: is_write_def)

lemma no_writes_fetch_rss: "no_writes (snd (fetch_rss w url))"
  unfolding fetch_rss_def by (rule no_writes_retry_single) (simp_all add: is_write_def)

lemma no_writes_read_json: "no_writes (snd (read_json w path s))"
  unfolding read_json_def by (rule no_writes_retry_single) (simp_all add: is_write_def)

lemma no_writes_embed: "no_writes (snd (embed_text w text))"
  unfolding embed_text_def by (rule no_writes_retry_single) (simp_all add: is_write_def)

lemma no_writes_upsert: "no_writes (snd (upsert_vector w v d md))"
  unfolding upsert_vector_def by (rule no_writes_retry_single) (simp_all add: is_write_def)

lemma no_writes_if:
  "no_writes (snd a) \<Longrightarrow> no_writes (snd b) \<Longrightarrow> no_writes (snd (if c then a else b))"
  by simp

lemma no_writes_item_body: "no_writes (snd (item_body cfg f fo w it item_id))"
  unfolding item_body_def
  by (intro no_writes_bind no_writes_if no_writes_upload no_writes_fetch_html no_writes_embed
            no_writes_upsert)
     (simp_all add: no_writes_def is_write_def clean_html_def ingest_call_def)

lemma no_writes_item_events: "no_writes (item_events cfg f fo p)"
  using no_writes_item_body [of cfg f fo "fst p" "snd p" "pair_id p"]
  by (cases "run_item cfg f fo p")
     (auto simp: item_events_def run_item_def no_writes_def is_write_def split: sum.splits)

lemma no_writes_concat: "(\<And>x. x \<in> set xs \<Longrightarrow> no_writes (g x)) \<Longrightarrow> no_writes (concat (map g xs))"
  by (induction xs) (simp_all add: no_writes_Nil no_writes_append)

lemma no_writes_loop: "no_writes (ls_trace (items_loop cfg f fo w 0 its init_state))"
  by (simp add: items_loop_foldl foldl_trace init_state_def no_writes_concat no_writes_item_events)

lemma no_writes_detect: "no_writes (snd (detect_new_items fw fc s))"
  unfolding detect_new_items_def fetch_items_def load_processed_def
  by (auto intro!: no_writes_bind simp: no_writes_fetch_rss no_writes_read_json no_writes_Nil)

lemma detect_Inr:
  assumes "detect_new_items fw fc s = (Inr (processed_ids, new_items), tr0)"
  shows "\<exists>items. fst (fetch_items fw fc) = Inr items
           \<and> fst (read_json (fw_read_json fw) (processed_ids_path fc) s) = Inr (s (processed_ids_path fc))
           \<and> processed_ids = or_default_doc (s (processed_ids_path fc))
           \<and> new_items = get_new_items items (set (doc_ids processed_ids))"
proof -
  have f: "fst (detect_new_items fw fc s) = Inr (processed_ids, new_items)" using assms by simp
  have r: "\<And>x. fst (read_json (fw_read_json fw) (processed_ids_path fc) s) = Inr x
              \<Longrightarrow> x = s (processed_ids_path fc)"
  proof -
    fix x assume a: "fst (read_json (fw_read_json fw) (processed_ids_path fc) s) = Inr x"
    show "x = s (processed_ids_path fc)"
      using a unfolding read_json_def retry_def
      by (auto simp: numeral_3_eq_3 split: option.splits sum.splits prod.splits if_splits)
  qed
  show ?thesis
    using f r unfolding detect_new_items_def load_processed_def
    by (auto simp: fst_bind_tr split: sum.splits)
qed


lemma doc_ids_update: "doc_ids (AList.update ''ids'' x d) = x"
  by (simp add: doc_ids_def opt_default_def update_conv')

lemma write_json_cases:
  "\<exists>m < 3.
     (write_json w path doc s = ((Inr (), replicate (Suc m) (EWriteJson path doc)), s(path \<mapsto> doc)))
   \<or> (\<exists>e. write_json w path doc s = ((Inl e, replicate (Suc m) (EWriteJson path doc)), s))"
proof -
  obtain m where m: "m < 3"
      "snd (retry any_exception 3 (\<lambda>k. (unit_result (w k), [EWriteJson path doc])))
         = replicate (Suc m) (EWriteJson path doc)"
    using retry_single_trace [of 3 any_exception "\<lambda>k. unit_result (w k)" "EWriteJson path doc"]
    by auto
  show ?thesis
  proof (cases "fst (retry any_exception 3 (\<lambda>k. (unit_result (w k), [EWriteJson path doc])))")
    case (Inl e)
    then have "write_json w path doc s = ((Inl e, replicate (Suc m) (EWriteJson path doc)), s)"
      using m(2) unfolding write_json_def
      by (cases "retry any_exception 3 (\<lambda>k. (unit_result (w k), [EWriteJson path doc]))") simp
    then show ?thesis using m(1) by blast
  next
    case (Inr u)
    then have "write_json w path doc s
        = ((Inr (), replicate (Suc m) (EWriteJson path doc)), s(path \<mapsto> doc))"
      using m(2) unfolding write_json_def
      by (cases "retry any_exception 3 (\<lambda>k. (unit_result (w k), [EWriteJson path doc]))") simp
    then show ?thesis using m(1) by blast
  qed
qed

lemma process_feed_after_detect:
  assumes "detect_new_items fw fc s = (Inr (processed_ids, new_items), tr0)" "new_items \<noteq> []"
  shows "process_feed cfg fw name fc s =
     (case commit_processed fw fc processed_ids
             (items_loop cfg name (fc_folder fc) (fw_item fw) 0 new_items init_state) s of
        ((Inl e, tr3), s') \<Rightarrow>
          ((Inl e, (tr0 @ ls_trace (items_loop cfg name (fc_folder fc) (fw_item fw) 0 new_items
                                               init_state) @ tr3)
                   @ [ELog Error ''Error processing feed'' name]), s')
      | ((Inr u, tr3), s') \<Rightarrow>
          ((Inr u, tr0 @ ls_trace (items_loop cfg name (fc_folder fc) (fw_item fw) 0 new_items
                                              init_state) @ tr3), s'))"
  unfolding process_feed_def process_feed_body_def Let_def
  using assms by (auto split: prod.splits sum.splits)

lemma commit_after_items:
  "detect_new_items fw fc s = (Inr (processed_ids, new_items), tr0) \<and> new_items \<noteq> [] \<longrightarrow>
     processed_ids = or_default_doc (s (processed_ids_path fc))
   \<and> new_processed_ids (items_loop cfg name (fc_folder fc) (fw_item fw) 0 new_items init_state)
       = map pair_id (filter (item_completes cfg name (fc_folder fc))
                             (paired (fw_item fw) 0 new_items))
   \<and> (\<forall>p \<in> set (paired (fw_item fw) 0 new_items).
         item_completes cfg name (fc_folder fc) p \<longrightarrow>
           iw_rag (fst p) = None
         \<and> (\<exists>text v. fst (embed_text (iw_embed (fst p)) text) = Inr v
                 \<and> fst (upsert_vector (iw_upsert (fst p)) v (pair_id p)
                          (make_metadata name (fst p) (snd p) (pair_id p))) = Inr ()))
   \<and> (\<exists>tail n. n \<le> 3
         \<and> snd (fst (process_feed cfg fw name fc s))
             = tr0 @ ls_trace (items_loop cfg name (fc_folder fc) (fw_item fw) 0 new_items
                                          init_state) @ tail
         \<and> no_writes (tr0 @ ls_trace (items_loop cfg name (fc_folder fc) (fw_item fw) 0
                                                  new_items init_state))
         \<and> filter is_write tail
             = replicate n (EWriteJson (processed_ids_path fc)
                 (AList.update ''ids''
                    (doc_ids processed_ids
                     @ new_processed_ids (items_loop cfg name (fc_folder fc) (fw_item fw) 0
                                                     new_items init_state))
                    processed_ids)))
   \<and> (snd (process_feed cfg fw name fc s) = s
       \<or> (fst (fst (process_feed cfg fw name fc s)) = Inr ()
          \<and> new_processed_ids (items_loop cfg name (fc_folder fc) (fw_item fw) 0 new_items
                                           init_state) \<noteq> []
          \<and> snd (process_feed cfg fw name fc s)
              = s(processed_ids_path fc \<mapsto>
                   AList.update ''ids''
                     (doc_ids processed_ids
                      @ new_processed_ids (items_loop cfg name (fc_folder fc) (fw_item fw) 0
                                                      new_items init_state))
                     processed_ids)))
   \<and> doc_ids (AList.update ''ids''
                 (doc_ids processed_ids
                  @ new_processed_ids (items_loop cfg name (fc_folder fc) (fw_item fw) 0
                                                  new_items init_state))
                 processed_ids)
       = doc_ids processed_ids
         @ new_processed_ids (items_loop cfg name (fc_folder fc) (fw_item fw) 0 new_items
                                         init_state)"
proof
  assume h: "detect_new_items fw fc s = (Inr (processed_ids, new_items), tr0) \<and> new_items \<noteq> []"
  define st where "st = items_loop cfg name (fc_folder fc) (fw_item fw) 0 new_items init_state"
  define doc where "doc = AList.update ''ids'' (doc_ids processed_ids @ new_processed_ids st)
                                       processed_ids"
  have d: "detect_new_items fw fc s = (Inr (processed_ids, new_items), tr0)" and ne: "new_items \<noteq> []"
    using h by simp_all
  have 1: "processed_ids = or_default_doc (s (processed_ids_path fc))"
    using detect_Inr [OF d] by blast
  have 2: "new_processed_ids st
             = map pair_id (filter (item_completes cfg name (fc_folder fc))
                                   (paired (fw_item fw) 0 new_items))"
    unfolding st_def by (simp add: items_loop_foldl foldl_ids init_state_def)
  have 3: "\<forall>p \<in> set (paired (fw_item fw) 0 new_items).
         item_completes cfg name (fc_folder fc) p \<longrightarrow>
           iw_rag (fst p) = None
         \<and> (\<exists>text v. fst (embed_text (iw_embed (fst p)) text) = Inr v
                 \<and> fst (upsert_vector (iw_upsert (fst p)) v (pair_id p)
                          (make_metadata name (fst p) (snd p) (pair_id p))) = Inr ())"
    using item_completes_steps [of cfg name "fc_folder fc"] by blast
  have nw: "no_writes (tr0 @ ls_trace st)"
    using no_writes_detect [of fw fc s] no_writes_loop [of cfg name "fc_folder fc" "fw_item fw" new_items]
    unfolding st_def by (simp add: d no_writes_append)
  have pf: "process_feed cfg fw name fc s =
     (case commit_processed fw fc processed_ids st s of
        ((Inl e, tr3), s') \<Rightarrow>
          ((Inl e, (tr0 @ ls_trace st @ tr3) @ [ELog Error ''Error processing feed'' name]), s')
      | ((Inr u, tr3), s') \<Rightarrow> ((Inr u, tr0 @ ls_trace st @ tr3), s'))"
    unfolding st_def by (rule process_feed_after_detect [OF d ne])
  have 45: "(\<exists>tail n. n \<le> 3
         \<and> snd (fst (process_feed cfg fw name fc s)) = tr0 @ ls_trace st @ tail
         \<and> filter is_write tail = replicate n (EWriteJson (processed_ids_path fc) doc))
      \<and> (snd (process_feed cfg fw name fc s) = s
          \<or> (fst (fst (process_feed cfg fw name fc s)) = Inr ()
              \<and> new_processed_ids st \<noteq> []
              \<and> snd (process_feed cfg fw name fc s) = s(processed_ids_path fc \<mapsto> doc)))"
  proof (cases "new_processed_ids st = []")
    case True
    then have "process_feed cfg fw name fc s
        = ((Inr (), tr0 @ ls_trace st @ [ESummary (processed_count st) (error_count st)]), s)"
      unfolding pf commit_processed_def by simp
    then show ?thesis
      by (auto intro!: exI [of _ "[ESummary (processed_count st) (error_count st)]"] exI [of _ 0]
               simp: is_write_def)
  next
    case False
    show ?thesis
    proof (cases "map_of processed_ids ''ids''")
      case None
      then have "process_feed cfg fw name fc s
          = ((Inl (KeyError ''ids''),
              (tr0 @ ls_trace st @ []) @ [ELog Error ''Error processing feed'' name]), s)"
        unfolding pf commit_processed_def using False by simp
      then show ?thesis
        by (auto intro!: exI [of _ "[ELog Error ''Error processing feed'' name]"] exI [of _ 0]
                 simp: is_write_def)
    next
      case (Some ids)
      then have ids: "doc_ids processed_ids = ids" by (simp add: doc_ids_def opt_default_def)
      obtain m where m: "m < 3"
        and w: "write_json (fw_write_json fw) (processed_ids_path fc) doc s
                  = ((Inr (), replicate (Suc m) (EWriteJson (processed_ids_path fc) doc)),
                     s(processed_ids_path fc \<mapsto> doc))
              \<or> (\<exists>e. write_json (fw_write_json fw) (processed_ids_path fc) doc s
                  = ((Inl e, replicate (Suc m) (EWriteJson (processed_ids_path fc) doc)), s))"
        using write_json_cases [of "fw_write_json fw" "processed_ids_path fc" doc s] by blast
      from w show ?thesis
      proof
        assume ok: "write_json (fw_write_json fw) (processed_ids_path fc) doc s
                  = ((Inr (), replicate (Suc m) (EWriteJson (processed_ids_path fc) doc)),
                     s(processed_ids_path fc \<mapsto> doc))"
        have "process_feed cfg fw name fc s
          = ((Inr (), tr0 @ ls_trace st @ replicate (Suc m) (EWriteJson (processed_ids_path fc) doc)
                      @ [ESummary (processed_count st) (error_count st)]),
             s(processed_ids_path fc \<mapsto> doc))"
          unfolding pf commit_processed_def using False Some ok ids
          by (simp add: doc_def)
        then show ?thesis using m False
          by (auto intro!: exI [of _ "replicate (Suc m) (EWriteJson (processed_ids_path fc) doc)
                      @ [ESummary (processed_count st) (error_count st)]"] exI [of _ "Suc m"]
                   simp: is_write_def)
      next
        assume "\<exists>e. write_json (fw_write_json fw) (processed_ids_path fc) doc s
                  = ((Inl e, replicate (Suc m) (EWriteJson (processed_ids_path fc) doc)), s)"
        then obtain e where bad: "write_json (fw_write_json fw) (processed_ids_path fc) doc s
                  = ((Inl e, replicate (Suc m) (EWriteJson (processed_ids_path fc) doc)), s)"
          by blast
        have "process_feed cfg fw name fc s
          = ((Inl e, (tr0 @ ls_trace st @ replicate (Suc m) (EWriteJson (processed_ids_path fc) doc))
                      @ [ELog Error ''Error processing feed'' name]), s)"
          unfolding pf commit_processed_def using False Some bad ids
          by (simp add: doc_def)
        then show ?thesis using m
          by (auto intro!: exI [of _ "replicate (Suc m) (EWriteJson (processed_ids_path fc) doc)
                      @ [ELog Error ''Error processing feed'' name]"] exI [of _ "Suc m"]
                   simp: is_write_def)
      qed
    qed
  qed
  show "processed_ids = or_default_doc (s (processed_ids_path fc))
   \<and> new_processed_ids (items_loop cfg name (fc_folder fc) (fw_item fw) 0 new_items init_state)
       = map pair_id (filter (item_completes cfg name (fc_folder fc))
                             (paired (fw_item fw) 0 new_items))
   \<and> (\<forall>p \<in> set (paired (fw_item fw) 0 new_items).
         item_completes cfg name (fc_folder fc) p \<longrightarrow>
           iw_rag (fst p) = None
         \<and> (\<exists>text v. fst (embed_text (iw_embed (fst p)) text) = Inr v
                 \<and> fst (upsert_vector (iw_upsert (fst p)) v (pair_id p)
                          (make_metadata name (fst p) (snd p) (pair_id p))) = Inr ()))
   \<and> (\<exists>tail n. n \<le> 3
         \<and> snd (fst (process_feed cfg fw name fc s))
             = tr0 @ ls_trace (items_loop cfg name (fc_folder fc) (fw_item fw) 0 new_items
                                          init_state) @ tail
         \<and> no_writes (tr0 @ ls_trace (items_loop cfg name (fc_folder fc) (fw_item fw) 0
                                                  new_items init_state))
         \<and> filter is_write tail
             = replicate n (EWriteJson (processed_ids_path fc)
                 (AList.update ''ids''
                    (doc_ids processed_ids
                     @ new_processed_ids (items_loop cfg name (fc_folder fc) (fw_item fw) 0
                                                     new_items init_state))
                    processed_ids)))
   \<and> (snd (process_feed cfg fw name fc s) = s
       \<or> (fst (fst (process_feed cfg fw name fc s)) = Inr ()
          \<and> new_processed_ids (items_loop cfg name (fc_folder fc) (fw_item fw) 0 new_items
                                           init_state) \<noteq> []
          \<and> snd (process_feed cfg fw name fc s)
              = s(processed_ids_path fc \<mapsto>
                   AList.update ''ids''
                     (doc_ids processed_ids
                      @ new_processed_ids (items_loop cfg name (fc_folder fc) (fw_item fw) 0
                                                      new_items init_state))
                     processed_ids)))
   \<and> doc_ids (AList.update ''ids''
                 (doc_ids processed_ids
                  @ new_processed_ids (items_loop cfg name (fc_folder fc) (fw_item fw) 0
                                                  new_items init_state))
                 processed_ids)
       = doc_ids processed_ids
         @ new_processed_ids (items_loop cfg name (fc_folder fc) (fw_item fw) 0 new_items
                                         init_state)"
    using 1 2 3 nw 45 unfolding st_def [symmetric] doc_def [symmetric]
    by (auto simp: doc_def doc_ids_update)
qed

text \<open>
  C6: a feed pass whose detection fails, or finds no new item, writes nothing and
  leaves the bucket as it is. In a feed pass that finds new items, the document loaded
  is the stored one (or the default with an empty list); the ids appended are the ids
  of the items that completed, in feed order, and for each of them the corpus import,
  the embedding and the vector upsert returned normally; every write of the document comes after the events of all
  items, the writes are the attempts (at most three) of the one call of
  \<^verbatim>\<open>write_json\<close>, all with the same document; the bucket afterwards is the bucket
  before, or the bucket before with that document stored, and the list of ids in that
  document is the loaded list followed by the appended ids.
\<close>

theorem C6_processed_set_commit:
  "(detect_new_items fw fc s = (Inl e, tr0) \<longrightarrow>
      process_feed cfg fw name fc s
        = ((Inl e, tr0 @ [ELog Error ''Error processing feed'' name]), s)
      \<and> no_writes tr0)
   \<and> (detect_new_items fw fc s = (Inr (processed_ids, []), tr0) \<longrightarrow>
      process_feed cfg fw name fc s = ((Inr (), tr0), s) \<and> no_writes tr0)
   \<and> (detect_new_items fw fc s = (Inr (processed_ids, new_items), tr0) \<and> new_items \<noteq> [] \<longrightarrow>
     processed_ids = or_default_doc (s (processed_ids_path fc))
   \<and> new_processed_ids (items_loop cfg name (fc_folder fc) (fw_item fw) 0 new_items init_state)
       = map pair_id (filter (item_completes cfg name (fc_folder fc))
                             (paired (fw_item fw) 0 new_items))
   \<and> (\<forall>p \<in> set (paired (fw_item fw) 0 new_items).
         item_completes cfg name (fc_folder fc) p \<longrightarrow>
           iw_rag (fst p) = None
         \<and> (\<exists>text v. fst (embed_text (iw_embed (fst p)) text) = Inr v
                 \<and> fst (upsert_vector (iw_upsert (fst p)) v (pair_id p)
                          (make_metadata name (fst p) (snd p) (pair_id p))) = Inr ()))
   \<and> (\<exists>tail n. n \<le> 3
         \<and> snd (fst (process_feed cfg fw name fc s))
             = tr0 @ ls_trace (items_loop cfg name (fc_folder fc) (fw_item fw) 0 new_items
                                          init_state) @ tail
         \<and> no_writes (tr0 @ ls_trace (items_loop cfg name (fc_folder fc) (fw_item fw) 0
                                                  new_items init_state))
         \<and> filter is_write tail
             = replicate n (EWriteJson (processed_ids_path fc)
                 (AList.update ''ids''
                    (doc_ids processed_ids
                     @ new_processed_ids (items_loop cfg name (fc_folder fc) (fw_item fw) 0
                                                     new_items init_state))
                    processed_ids)))
   \<and> (snd (process_feed cfg fw name fc s) = s
       \<or> (fst (fst (process_feed cfg fw name fc s)) = Inr ()
          \<and> new_processed_ids (items_loop cfg name (fc_folder fc) (fw_item fw) 0 new_items
                                           init_state) \<noteq> []
          \<and> snd (process_feed cfg fw name fc s)
              = s(processed_ids_path fc \<mapsto>
                   AList.update ''ids''
                     (doc_ids processed_ids
                      @ new_processed_ids (items_loop cfg name (fc_folder fc) (fw_item fw) 0
                                                      new_items init_state))
                     processed_ids)))
   \<and> doc_ids (AList.update ''ids''
                 (doc_ids processed_ids
                  @ new_processed_ids (items_loop cfg name (fc_folder fc) (fw_item fw) 0
                                                  new_items init_state))
                 processed_ids)
       = doc_ids processed_ids
         @ new_processed_ids (items_loop cfg name (fc_folder fc) (fw_item fw) 0 new_items
                                         init_state))"
proof (intro conjI)
  show "detect_new_items fw fc s = (Inl e, tr0) \<longrightarrow>
      process_feed cfg fw name fc s
        = ((Inl e, tr0 @ [ELog Error ''Error processing feed'' name]), s)
      \<and> no_writes tr0"
    using no_writes_detect [of fw fc s]
    by (auto simp: process_feed_def process_feed_body_def)
  show "detect_new_items fw fc s = (Inr (processed_ids, []), tr0) \<longrightarrow>
      process_feed cfg fw name fc s = ((Inr (), tr0), s) \<and> no_writes tr0"
    using no_writes_detect [of fw fc s]
    by (auto simp: process_feed_def process_feed_body_def)
qed (rule commit_after_items)

theorem C6_processed_set_commit_witness:
  "no_writes ([EFetchRss ''https://feeds.example/dev'', EReadJson ''dev/processed_ids.json'']
              @ ls_trace (items_loop example_cfg ''dev'' (fc_folder dev_feed)
                            (fw_item (feed_world_ok [plain_item, stub_item])) 0
                            [plain_item, stub_item] init_state))
   \<and> new_processed_ids (items_loop example_cfg ''dev'' (fc_folder dev_feed)
                          (fw_item (feed_world_ok [plain_item, stub_item])) 0
                          [plain_item, stub_item] init_state) = [''post-1'']
   \<and> snd (process_feed example_cfg (feed_world_ok [plain_item, stub_item]) ''dev'' dev_feed
                        Map.empty) ''dev/processed_ids.json''
       = Some [(''ids'', [''post-1''])]"
proof -
  have d: "detect_new_items (feed_world_ok [plain_item, stub_item]) dev_feed Map.empty
             = (Inr ([(''ids'', [])], [plain_item, stub_item]),
                [EFetchRss ''https://feeds.example/dev'', EReadJson ''dev/processed_ids.json''])"
    by code_simp
  have e1: "new_processed_ids (items_loop example_cfg ''dev'' (fc_folder dev_feed)
                          (fw_item (feed_world_ok [plain_item, stub_item])) 0
                          [plain_item, stub_item] init_state) = [''post-1'']"
    by code_simp
  have e2: "snd (process_feed example_cfg (feed_world_ok [plain_item, stub_item]) ''dev'' dev_feed
                        Map.empty) ''dev/processed_ids.json''
       = Some [(''ids'', [''post-1''])]"
    by code_simp
  show ?thesis
    using C6_processed_set_commit
            [where fw = "feed_world_ok [plain_item, stub_item]" and fc = dev_feed
               and s = Map.empty and processed_ids = "[(''ids'', [])]"
               and new_items = "[plain_item, stub_item]"
               and ?tr0.0 = "[EFetchRss ''https://feeds.example/dev'',
                              EReadJson ''dev/processed_ids.json'']"
               and cfg = example_cfg and name = "''dev''"] d e1 e2
    by auto
qed

section \<open>Item failures stay with the item\<close>

lemma loop_counts:
  "error_count (items_loop cfg f fo w 0 new_items init_state)
      = length (filter (item_raises cfg f fo) (paired w 0 new_items))
   \<and> processed_count (items_loop cfg f fo w 0 new_items init_state)
      = length (filter (item_completes cfg f fo) (paired w 0 new_items))
   \<and> new_processed_ids (items_loop cfg f fo w 0 new_items init_state)
      = map pair_id (filter (item_completes cfg f fo) (paired w 0 new_items))
   \<and> ls_trace (items_loop cfg f fo w 0 new_items init_state)
      = concat (map (item_events cfg f fo) (paired w 0 new_items))
   \<and> (\<forall>p \<in> set (paired w 0 new_items).
         \<not> item_raises cfg f fo p \<and> \<not> item_abandoned cfg f fo p
         \<longrightarrow> item_completes cfg f fo p
             \<and> pair_id p \<in> set (new_processed_ids (items_loop cfg f fo w 0 new_items init_state)))"
  using outcome_cases [of cfg f fo]
  by (auto simp: items_loop_foldl foldl_ids foldl_processed foldl_errors foldl_trace init_state_def)

lemma pass_summary:
  assumes "detect_new_items fw fc s = (Inr (processed_ids, new_items), tr0)" "new_items \<noteq> []"
    and "fst (fst (process_feed cfg fw name fc s)) = Inr ()"
  shows "last (snd (fst (process_feed cfg fw name fc s)))
           = ESummary (length (filter (item_completes cfg name (fc_folder fc))
                                      (paired (fw_item fw) 0 new_items)))
                      (length (filter (item_raises cfg name (fc_folder fc))
                                      (paired (fw_item fw) 0 new_items)))"
proof -
  define st where "st = items_loop cfg name (fc_folder fc) (fw_item fw) 0 new_items init_state"
  have cnt: "processed_count st = length (filter (item_completes cfg name (fc_folder fc))
                                      (paired (fw_item fw) 0 new_items))"
       "error_count st = length (filter (item_raises cfg name (fc_folder fc))
                                      (paired (fw_item fw) 0 new_items))"
    unfolding st_def by (simp_all add: items_loop_foldl foldl_processed foldl_errors init_state_def)
  have pf: "process_feed cfg fw name fc s =
     (case commit_processed fw fc processed_ids st s of
        ((Inl e, tr3), s') \<Rightarrow>
          ((Inl e, (tr0 @ ls_trace st @ tr3) @ [ELog Error ''Error processing feed'' name]), s')
      | ((Inr u, tr3), s') \<Rightarrow> ((Inr u, tr0 @ ls_trace st @ tr3), s'))"
    unfolding st_def by (rule process_feed_after_detect [OF assms(1,2)])
  have "\<exists>tr3. snd (fst (process_feed cfg fw name fc s))
                 = tr0 @ ls_trace st @ tr3 @ [ESummary (processed_count st) (error_count st)]"
  proof (cases "new_processed_ids st = []")
    case True
    then show ?thesis unfolding pf commit_processed_def by simp
  next
    case False
    show ?thesis
    proof (cases "map_of processed_ids ''ids''")
      case None
      then show ?thesis using assms(3) False unfolding pf commit_processed_def by simp
    next
      case (Some ids)
      obtain r tr3 s' where w: "write_json (fw_write_json fw) (processed_ids_path fc)
            (AList.update ''ids'' (ids @ new_processed_ids st) processed_ids) s = ((r, tr3), s')"
        by (metis prod.exhaust)
      show ?thesis using assms(3) False Some w unfolding pf commit_processed_def
        by (cases r) auto
    qed
  qed
  then show ?thesis using cnt by auto
qed

text \<open>
  C7, as stated, fails: an item without a link raises nothing, yet it is abandoned by
  the missing-link rule and is not marked processed.
\<close>

theorem C7_counterexample:
  "\<not> item_raises example_cfg ''dev'' ''dev'' (item_world_ok, stub_item)
   \<and> new_processed_ids (items_loop example_cfg ''dev'' ''dev'' (\<lambda>i. item_world_ok) 0
                                     [stub_item] init_state) = []
   \<and> error_count (items_loop example_cfg ''dev'' ''dev'' (\<lambda>i. item_world_ok) 0
                               [stub_item] init_state) = 0"
  by code_simp

text \<open>
  C7, amended: take any batch of new items in one feed pass, each item with the world it
  meets, and sort the items by how their \<^verbatim>\<open>try\<close> block ends: raising an exception,
  abandoned (missing link or text too short), or completing. Then the reported error
  count is the number of raising items, the processed count is the number of completing
  items, the ids marked processed are the ids of the completing items in feed order, and
  the trace of the loop is the concatenation of the events of every item of the batch in
  order, so no item is left out and the pass is never aborted by an item-level
  exception. Every item that neither raises nor is abandoned completes and has its id
  marked processed. When the pass ends normally, its closing log line reports these
  two counts.
\<close>

theorem C7_item_isolation:
  "(error_count (items_loop cfg f fo w 0 new_items init_state)
      = length (filter (item_raises cfg f fo) (paired w 0 new_items))
   \<and> processed_count (items_loop cfg f fo w 0 new_items init_state)
      = length (filter (item_completes cfg f fo) (paired w 0 new_items))
   \<and> new_processed_ids (items_loop cfg f fo w 0 new_items init_state)
      = map pair_id (filter (item_completes cfg f fo) (paired w 0 new_items))
   \<and> ls_trace (items_loop cfg f fo w 0 new_items init_state)
      = concat (map (item_events cfg f fo) (paired w 0 new_items))
   \<and> (\<forall>p \<in> set (paired w 0 new_items).
         \<not> item_raises cfg f fo p \<and> \<not> item_abandoned cfg f fo p
         \<longrightarrow> item_completes cfg f fo p
             \<and> pair_id p \<in> set (new_processed_ids (items_loop cfg f fo w 0 new_items init_state))))
   \<and> (detect_new_items fw fc s = (Inr (processed_ids, new_items), tr0) \<and> new_items \<noteq> []
      \<and> fst (fst (process_feed cfg fw f fc s)) = Inr ()
      \<longrightarrow> last (snd (fst (process_feed cfg fw f fc s)))
          = ESummary (length (filter (item_completes cfg f (fc_folder fc))
                                     (paired (fw_item fw) 0 new_items)))
                     (length (filter (item_raises cfg f (fc_folder fc))
                                     (paired (fw_item fw) 0 new_items))))"
proof
  show "error_count (items_loop cfg f fo w 0 new_items init_state)
      = length (filter (item_raises cfg f fo) (paired w 0 new_items))
   \<and> processed_count (items_loop cfg f fo w 0 new_items init_state)
      = length (filter (item_completes cfg f fo) (paired w 0 new_items))
   \<and> new_processed_ids (items_loop cfg f fo w 0 new_items init_state)
      = map pair_id (filter (item_completes cfg f fo) (paired w 0 new_items))
   \<and> ls_trace (items_loop cfg f fo w 0 new_items init_state)
      = concat (map (item_events cfg f fo) (paired w 0 new_items))
   \<and> (\<forall>p \<in> set (paired w 0 new_items).
         \<not> item_raises cfg f fo p \<and> \<not> item_abandoned cfg f fo p
         \<longrightarrow> item_completes cfg f fo p
             \<and> pair_id p \<in> set (new_processed_ids (items_loop cfg f fo w 0 new_items init_state)))"
    by (rule loop_counts)
  show "detect_new_items fw fc s = (Inr (processed_ids, new_items), tr0) \<and> new_items \<noteq> []
      \<and> fst (fst (process_feed cfg fw f fc s)) = Inr ()
      \<longrightarrow> last (snd (fst (process_feed cfg fw f fc s)))
          = ESummary (length (filter (item_completes cfg f (fc_folder fc))
                                     (paired (fw_item fw) 0 new_items)))
                     (length (filter (item_raises cfg f (fc_folder fc))
                                     (paired (fw_item fw) 0 new_items)))"
    using pass_summary [of fw fc s processed_ids new_items tr0 cfg f] by blast
qed

theorem C7_item_isolation_witness:
  "error_count (items_loop example_cfg ''dev'' ''dev'' example_item_worlds 0
                           [plain_item, post_item] init_state) = 1
   \<and> new_processed_ids (items_loop example_cfg ''dev'' ''dev'' example_item_worlds 0
                                     [plain_item, post_item] init_state)
       = [''https___blog.example__p_1'']
   \<and> item_completes example_cfg ''dev'' ''dev'' (item_world_ok, post_item)
   \<and> last (snd (fst (process_feed example_cfg (feed_world_mixed [plain_item, post_item]) ''dev''
                                   dev_feed Map.empty)))
       = ESummary 1 1"
proof -
  have e0: "paired example_item_worlds 0 [plain_item, post_item]
              = [(item_world_down, plain_item), (item_world_ok, post_item)]"
    by (simp add: paired_Cons paired_Nil example_item_worlds_def)
  have e1: "item_raises example_cfg ''dev'' ''dev'' (item_world_down, plain_item)" by code_simp
  have e2: "item_completes example_cfg ''dev'' ''dev'' (item_world_ok, post_item)" by code_simp
  have e3: "pair_id (item_world_ok, post_item) = ''https___blog.example__p_1''" by code_simp
  have d: "detect_new_items (feed_world_mixed [plain_item, post_item]) dev_feed Map.empty
     = (Inr ([(''ids'', [])], [plain_item, post_item]),
        [EFetchRss ''https://feeds.example/dev'', EReadJson ''dev/processed_ids.json''])"
    by code_simp
  have ok: "fst (fst (process_feed example_cfg (feed_world_mixed [plain_item, post_item]) ''dev''
                                   dev_feed Map.empty)) = Inr ()"
    by code_simp
  have fw: "fw_item (feed_world_mixed [plain_item, post_item]) = example_item_worlds"
      "fc_folder dev_feed = ''dev''"
    by (simp_all add: feed_world_mixed_def dev_feed_def)
  have x: "\<not> item_completes example_cfg ''dev'' ''dev'' (item_world_down, plain_item)"
      "\<not> item_raises example_cfg ''dev'' ''dev'' (item_world_ok, post_item)"
    using e1 e2 outcome_exclusive [of example_cfg "''dev''" "''dev''"] by auto
  show ?thesis
    using C7_item_isolation
            [where cfg = example_cfg and f = "''dev''" and fo = "''dev''"
               and w = example_item_worlds and new_items = "[plain_item, post_item]"
               and fw = "feed_world_mixed [plain_item, post_item]" and fc = dev_feed
               and s = Map.empty and processed_ids = "[(''ids'', [])]"
               and ?tr0.0 = "[EFetchRss ''https://feeds.example/dev'',
                              EReadJson ''dev/processed_ids.json'']"]
          e0 e1 e2 e3 d ok fw x
    by simp
qed

section \<open>Two runs over an unchanged feed\<close>

text \<open>
  C1 does not hold of the code. \<^verbatim>\<open>get_new_items\<close> compares the raw identity of an item
  with the stored ids, as its documentation says (a set of GUIDs or links), but
  \<^verbatim>\<open>process_feed\<close> stores the normalised id. Here a feed holds one item whose guid is
  a URL; the first run completes the item and stores its normalised id; in the second
  run over the same feed the item is in the delta again, it is processed again and its
  id is stored a second time.
\<close>

theorem C1_second_run_reprocesses:
  "fst (fst (process_feed example_cfg (feed_world_ok [post_item]) ''dev'' dev_feed Map.empty))
     = Inr ()
   \<and> item_completes example_cfg ''dev'' ''dev'' (item_world_ok, post_item)
   \<and> snd (process_feed example_cfg (feed_world_ok [post_item]) ''dev'' dev_feed Map.empty)
          ''dev/processed_ids.json''
       = Some [(''ids'', [''https___blog.example__p_1''])]
   \<and> fst (detect_new_items (feed_world_ok [post_item]) dev_feed
            (snd (process_feed example_cfg (feed_world_ok [post_item]) ''dev'' dev_feed Map.empty)))
       = Inr ([(''ids'', [''https___blog.example__p_1''])], [post_item])
   \<and> snd (process_feed example_cfg (feed_world_ok [post_item]) ''dev'' dev_feed
            (snd (process_feed example_cfg (feed_world_ok [post_item]) ''dev'' dev_feed Map.empty)))
          ''dev/processed_ids.json''
       = Some [(''ids'', [''https___blog.example__p_1'', ''https___blog.example__p_1''])]"
  by code_simp

section \<open>The run over all feeds\<close>

lemma run_feeds_append:
  "run_feeds cfg w (pre @ rest) s0 =
     (case run_feeds cfg w pre s0 of
        ((Inl e, tr), s) \<Rightarrow> ((Inl e, tr), s)
      | ((Inr u, tr), s) \<Rightarrow>
          (case run_feeds cfg w rest s of ((r, tr'), s') \<Rightarrow> ((r, tr @ tr'), s')))"
proof (induction pre arbitrary: s0)
  case Nil
  then show ?case by (simp split: prod.splits)
next
  case (Cons a pre)
  obtain name fc where a: "a = (name, fc)" by (cases a)
  show ?case unfolding a using Cons.IH
    by (auto split: prod.splits sum.splits)
qed

lemma main_feed_failure:
  assumes "w_init w = None" "rss_feeds cfg = pre @ (name, fc) # rest"
    and "run_feeds cfg w pre s0 = ((Inr (), tr_pre), s)"
    and "process_feed cfg (w_feed w name) name fc s = ((Inl e, tr), s')"
  shows "main cfg w s0 = (1, s', tr_pre @ tr @ [ELog Error ''RSS ingestion job failed'' []])"
  unfolding main_def using assms by (simp add: run_feeds_append)

lemma process_feed_fetch_failure:
  assumes "fetch_items fw fc = (Inl e, tr_f)"
  shows "process_feed cfg fw name fc s
           = ((Inl e, tr_f @ [ELog Error ''Error processing feed'' name]), s)"
proof -
  have "detect_new_items fw fc s = (Inl e, tr_f)"
    unfolding detect_new_items_def using assms bind_tr_Inl [of "fetch_items fw fc" e] by simp
  then show ?thesis unfolding process_feed_def process_feed_body_def by simp
qed

text \<open>
  C2, as stated, fails: with two feeds of which the first cannot be fetched, the run
  ends with status 1 after the first feed; the second feed, which would have passed, is
  never fetched.
\<close>

theorem C2_counterexample:
  "fst (main example_cfg example_world Map.empty) = 1
   \<and> snd (snd (main example_cfg example_world Map.empty))
       = [EFetchRss ''https://feeds.example/dev'', EFetchRss ''https://feeds.example/dev'',
          EFetchRss ''https://feeds.example/dev'', ELog Error ''Error processing feed'' ''dev'',
          ELog Error ''RSS ingestion job failed'' []]
   \<and> fst (fst (process_feed example_cfg (w_feed example_world ''official'') ''official''
                             official_feed Map.empty)) = Inr ()"
  by code_simp

text \<open>
  C2, amended: when the feeds before a feed in the list have passed and fetching or
  parsing that feed fails, the failure is logged by \<^verbatim>\<open>process_feed\<close> and again by
  \<^verbatim>\<open>main\<close>, the exit status is 1, and the run ends there: the trace is the trace of
  the feeds before it, the events of the failed fetch and the two log lines, and the
  bucket is as the feeds before it left it. The feeds after it in the list are not
  attempted.
\<close>

theorem C2_feed_failure_ends_run:
  "w_init w = None \<and> rss_feeds cfg = pre @ (name, fc) # rest
   \<and> run_feeds cfg w pre s0 = ((Inr (), tr_pre), s)
   \<and> fetch_items (w_feed w name) fc = (Inl e, tr_f)
   \<longrightarrow> main cfg w s0
       = (1, s, tr_pre @ tr_f @ [ELog Error ''Error processing feed'' name,
                                 ELog Error ''RSS ingestion job failed'' []])"
  using main_feed_failure [of w cfg pre name fc rest s0 tr_pre s e
                              "tr_f @ [ELog Error ''Error processing feed'' name]" s]
        process_feed_fetch_failure [of "w_feed w name" fc e tr_f cfg name s]
  by auto

theorem C2_feed_failure_ends_run_witness:
  "main example_cfg example_world Map.empty
     = (1, Map.empty,
        [EFetchRss ''https://feeds.example/dev'', EFetchRss ''https://feeds.example/dev'',
         EFetchRss ''https://feeds.example/dev'', ELog Error ''Error processing feed'' ''dev'',
         ELog Error ''RSS ingestion job failed'' []])"
proof -
  have e1: "fetch_items (w_feed example_world ''dev'') dev_feed
              = (Inl (RetryError (RequestException ''503'')),
                 [EFetchRss ''https://feeds.example/dev'', EFetchRss ''https://feeds.example/dev'',
                  EFetchRss ''https://feeds.example/dev''])"
    by code_simp
  have e2: "rss_feeds example_cfg = [] @ (''dev'', dev_feed) # [(''official'', official_feed)]"
    by (simp add: example_cfg_def)
  have e3: "w_init example_world = None" by (simp add: example_world_def)
  show ?thesis
    using C2_feed_failure_ends_run [of example_world example_cfg "[]" "''dev''" dev_feed
                 "[(''official'', official_feed)]" Map.empty "[]" Map.empty
                 "RetryError (RequestException ''503'')"
                 "[EFetchRss ''https://feeds.example/dev'', EFetchRss ''https://feeds.example/dev'',
                   EFetchRss ''https://feeds.example/dev'']"] e1 e2 e3
    by simp
qed

section \<open>A failing save of the processed ids\<close>

lemma write_json_exhausted:
  assumes "w 1 = Some e1" "w 2 = Some e2" "w 3 = Some e3"
  shows "write_json w path doc s
           = ((Inl (RetryError e3), replicate 3 (EWriteJson path doc)), s)"
proof -
  have "retry_from any_exception (\<lambda>k. (unit_result (w k), [EWriteJson path doc])) 1 (Suc (Suc 0))
          = (Inl (RetryError e3), replicate 3 (EWriteJson path doc))"
    using assms
    by (simp add: unit_result_def any_exception_def numeral_2_eq_2 numeral_3_eq_3)
  then show ?thesis
    unfolding write_json_def retry_def by (simp add: numeral_2_eq_2 numeral_3_eq_3)
qed

text \<open>
  C4, as stated, fails: when all three attempts of the final save fail, the feed's pass
  raises, the run ends with status 1, and the next feed is not fetched.
\<close>

theorem C4_counterexample:
  "fst (main example_cfg example_world_no_save Map.empty) = 1
   \<and> fst (fst (process_feed example_cfg (feed_world_no_save [plain_item]) ''dev'' dev_feed
                             Map.empty))
       = Inl (RetryError (LibraryError ''storage unavailable''))
   \<and> EFetchRss ''https://feeds.example/official''
       \<notin> set (snd (snd (main example_cfg example_world_no_save Map.empty)))"
  by code_simp

text \<open>
  C4, amended: if, in a feed pass that marked at least one item processed, all three
  attempts of the final save raise, then \<^verbatim>\<open>process_feed\<close> raises the retry error of
  the third attempt after logging it as a feed-level error; the trace of the pass is that
  of the detection and of all items, unchanged, followed by the three write attempts and
  the log line, so nothing is rolled back, and the bucket is unchanged. When the feeds
  before it in the list have passed, \<^verbatim>\<open>main\<close> logs the failure too and ends the run
  with status 1 without attempting the feeds after it.
\<close>

theorem C4_failed_save_fails_run:
  "detect_new_items fw fc s = (Inr (processed_ids, new_items), tr0) \<and> new_items \<noteq> []
   \<and> new_processed_ids (items_loop cfg name (fc_folder fc) (fw_item fw) 0 new_items init_state)
       \<noteq> []
   \<and> map_of processed_ids ''ids'' = Some ids
   \<and> fw_write_json fw 1 = Some e1 \<and> fw_write_json fw 2 = Some e2 \<and> fw_write_json fw 3 = Some e3
   \<longrightarrow>
     process_feed cfg fw name fc s
       = ((Inl (RetryError e3),
           tr0 @ ls_trace (items_loop cfg name (fc_folder fc) (fw_item fw) 0 new_items init_state)
           @ replicate 3 (EWriteJson (processed_ids_path fc)
               (AList.update ''ids''
                  (ids @ new_processed_ids (items_loop cfg name (fc_folder fc) (fw_item fw) 0
                                                       new_items init_state))
                  processed_ids))
           @ [ELog Error ''Error processing feed'' name]), s)
   \<and> (w_init w = None \<and> rss_feeds cfg = pre @ (name, fc) # rest
       \<and> run_feeds cfg w pre s0 = ((Inr (), tr_pre), s) \<and> w_feed w name = fw
       \<longrightarrow> main cfg w s0
           = (1, s,
              tr_pre @ tr0
              @ ls_trace (items_loop cfg name (fc_folder fc) (fw_item fw) 0 new_items init_state)
              @ replicate 3 (EWriteJson (processed_ids_path fc)
                  (AList.update ''ids''
                     (ids @ new_processed_ids (items_loop cfg name (fc_folder fc) (fw_item fw) 0
                                                          new_items init_state))
                     processed_ids))
              @ [ELog Error ''Error processing feed'' name,
                 ELog Error ''RSS ingestion job failed'' []]))"
proof (intro impI)
  assume h: "detect_new_items fw fc s = (Inr (processed_ids, new_items), tr0) \<and> new_items \<noteq> []
   \<and> new_processed_ids (items_loop cfg name (fc_folder fc) (fw_item fw) 0 new_items init_state)
       \<noteq> []
   \<and> map_of processed_ids ''ids'' = Some ids
   \<and> fw_write_json fw 1 = Some e1 \<and> fw_write_json fw 2 = Some e2 \<and> fw_write_json fw 3 = Some e3"
  define st where "st = items_loop cfg name (fc_folder fc) (fw_item fw) 0 new_items init_state"
  define doc where "doc = AList.update ''ids'' (ids @ new_processed_ids st) processed_ids"
  have d: "detect_new_items fw fc s = (Inr (processed_ids, new_items), tr0)"
    and ne: "new_items \<noteq> []" and n2: "new_processed_ids st \<noteq> []"
    and k: "map_of processed_ids ''ids'' = Some ids"
    using h by (simp_all add: st_def)
  have wj: "write_json (fw_write_json fw) (processed_ids_path fc) doc s
              = ((Inl (RetryError e3), replicate 3 (EWriteJson (processed_ids_path fc) doc)), s)"
    using h by (intro write_json_exhausted) simp_all
  have pf: "process_feed cfg fw name fc s
       = ((Inl (RetryError e3),
           tr0 @ ls_trace st @ replicate 3 (EWriteJson (processed_ids_path fc) doc)
           @ [ELog Error ''Error processing feed'' name]), s)"
    unfolding process_feed_after_detect [OF d ne, of cfg name] st_def [symmetric]
              commit_processed_def
    using n2 k wj by (simp add: doc_def)
  have mn: "w_init w = None \<and> rss_feeds cfg = pre @ (name, fc) # rest
       \<and> run_feeds cfg w pre s0 = ((Inr (), tr_pre), s) \<and> w_feed w name = fw
       \<longrightarrow> main cfg w s0
           = (1, s, tr_pre @ tr0 @ ls_trace st
                    @ replicate 3 (EWriteJson (processed_ids_path fc) doc)
                    @ [ELog Error ''Error processing feed'' name,
                       ELog Error ''RSS ingestion job failed'' []])"
    using main_feed_failure [of w cfg pre name fc rest s0 tr_pre s "RetryError e3"
            "tr0 @ ls_trace st @ replicate 3 (EWriteJson (processed_ids_path fc) doc)
             @ [ELog Error ''Error processing feed'' name]" s] pf
    by auto
  show "process_feed cfg fw name fc s
       = ((Inl (RetryError e3),
           tr0 @ ls_trace (items_loop cfg name (fc_folder fc) (fw_item fw) 0 new_items init_state)
           @ replicate 3 (EWriteJson (processed_ids_path fc)
               (AList.update ''ids''
                  (ids @ new_processed_ids (items_loop cfg name (fc_folder fc) (fw_item fw) 0
                                                       new_items init_state))
                  processed_ids))
           @ [ELog Error ''Error processing feed'' name]), s)
   \<and> (w_init w = None \<and> rss_feeds cfg = pre @ (name, fc) # rest
       \<and> run_feeds cfg w pre s0 = ((Inr (), tr_pre), s) \<and> w_feed w name = fw
       \<longrightarrow> main cfg w s0
           = (1, s,
              tr_pre @ tr0
              @ ls_trace (items_loop cfg name (fc_folder fc) (fw_item fw) 0 new_items init_state)
              @ replicate 3 (EWriteJson (processed_ids_path fc)
                  (AList.update ''ids''
                     (ids @ new_processed_ids (items_loop cfg name (fc_folder fc) (fw_item fw) 0
                                                          new_items init_state))
                     processed_ids))
              @ [ELog Error ''Error processing feed'' name,
                 ELog Error ''RSS ingestion job failed'' []]))"
    using pf mn unfolding st_def doc_def by simp
qed

theorem C4_failed_save_fails_run_witness:
  "fst (fst (process_feed example_cfg (feed_world_no_save [plain_item]) ''dev'' dev_feed
                          Map.empty))
     = Inl (RetryError (LibraryError ''storage unavailable''))
   \<and> snd (process_feed example_cfg (feed_world_no_save [plain_item]) ''dev'' dev_feed Map.empty)
       = Map.empty
   \<and> fst (main example_cfg example_world_no_save Map.empty) = 1"
proof -
  have d: "detect_new_items (feed_world_no_save [plain_item]) dev_feed Map.empty
             = (Inr ([(''ids'', [])], [plain_item]),
                [EFetchRss ''https://feeds.example/dev'', EReadJson ''dev/processed_ids.json''])"
    by code_simp
  have n: "new_processed_ids (items_loop example_cfg ''dev'' (fc_folder dev_feed)
                                (fw_item (feed_world_no_save [plain_item])) 0 [plain_item]
                                init_state) \<noteq> []"
    by code_simp
  have w: "fw_write_json (feed_world_no_save [plain_item]) 1 = Some (LibraryError ''storage unavailable'')"
      "fw_write_json (feed_world_no_save [plain_item]) 2 = Some (LibraryError ''storage unavailable'')"
      "fw_write_json (feed_world_no_save [plain_item]) 3 = Some (LibraryError ''storage unavailable'')"
    by (simp_all add: feed_world_no_save_def feed_world_ok_def)
  have m: "w_init example_world_no_save = None"
      "rss_feeds example_cfg = [] @ (''dev'', dev_feed) # [(''official'', official_feed)]"
      "w_feed example_world_no_save ''dev'' = feed_world_no_save [plain_item]"
    by (simp_all add: example_world_no_save_def example_cfg_def)
  show ?thesis
    using C4_failed_save_fails_run
            [where fw = "feed_world_no_save [plain_item]" and fc = dev_feed and s = Map.empty
               and processed_ids = "[(''ids'', [])]" and new_items = "[plain_item]"
               and ?tr0.0 = "[EFetchRss ''https://feeds.example/dev'',
                              EReadJson ''dev/processed_ids.json'']"
               and cfg = example_cfg and name = "''dev''" and ids = "[]"
               and ?e1.0 = "LibraryError ''storage unavailable''"
               and ?e2.0 = "LibraryError ''storage unavailable''"
               and ?e3.0 = "LibraryError ''storage unavailable''"
               and w = example_world_no_save and pre = "[]"
               and rest = "[(''official'', official_feed)]" and ?s0.0 = Map.empty
               and tr_pre = "[]"]
          d n w m
    by simp
qed

section \<open>The corpus import under its retry decorator\<close>




lemma poll_running_step:
  "a < n \<Longrightarrow> still_running (polls (Suc a)) \<Longrightarrow>
   poll_loop polls nm n a =
     (fst (poll_loop polls nm n (Suc a)),
      EPollOp nm # ESleep 5 # snd (poll_loop polls nm n (Suc a)))"
  by (subst poll_loop.simps)
     (auto simp: still_running_def split: sum.splits option.splits prod.splits)

lemma poll_success_step:
  "a < n \<Longrightarrow> terminal_success (polls (Suc a)) \<Longrightarrow>
   poll_loop polls nm n a = (Inr (), [EPollOp nm])"
  by (subst poll_loop.simps)
     (auto simp: terminal_success_def split: sum.splits option.splits prod.splits if_splits)


lemma status_checks_simps [simp]:
  "status_checks [] = 0"
  "status_checks (EPollOp nm # tr) = Suc (status_checks tr)"
  "status_checks (ESleep d # tr) = status_checks tr"
  "status_checks (EImport u # tr) = status_checks tr"
  by (simp_all add: status_checks_def is_status_check_def)

lemma submissions_simps [simp]:
  "submissions [] = 0"
  "submissions (EPollOp nm # tr) = submissions tr"
  "submissions (ESleep d # tr) = submissions tr"
  "submissions (EImport u # tr) = Suc (submissions tr)"
  by (simp_all add: submissions_def is_import_def)



lemma poll_success_from:
  "a + d < n \<Longrightarrow> (\<forall>j. a < j \<and> j \<le> a + d \<longrightarrow> still_running (polls j)) \<Longrightarrow>
   terminal_success (polls (Suc (a + d))) \<Longrightarrow>
   fst (poll_loop polls nm n a) = Inr () \<and>
   status_checks (snd (poll_loop polls nm n a)) = Suc d"
proof (induction d arbitrary: a)
  case 0
  then show ?case by (simp add: poll_success_step)
next
  case (Suc d)
  have r: "still_running (polls (Suc a))" using Suc.prems(2) by simp
  have "fst (poll_loop polls nm n (Suc a)) = Inr () \<and>
        status_checks (snd (poll_loop polls nm n (Suc a))) = Suc d"
    using Suc.prems by (intro Suc.IH) auto
  then show ?case using Suc.prems(1) r
    by (simp add: poll_running_step)
qed

lemma poll_timeout_from:
  "a \<le> n \<Longrightarrow> (\<forall>j. a < j \<and> j \<le> n \<longrightarrow> still_running (polls j)) \<Longrightarrow>
   fst (poll_loop polls nm n a) = Inl (PollTimeout n) \<and>
   status_checks (snd (poll_loop polls nm n a)) = n - a"
proof (induction "n - a" arbitrary: a)
  case 0
  then show ?case by (subst (1 2) poll_loop.simps) simp
next
  case (Suc d)
  then have lt: "a < n" by simp
  have r: "still_running (polls (Suc a))" using Suc.prems(2) lt by simp
  have "fst (poll_loop polls nm n (Suc a)) = Inl (PollTimeout n) \<and>
        status_checks (snd (poll_loop polls nm n (Suc a))) = n - Suc a"
    using Suc by (intro Suc.hyps(1)) auto
  then show ?case using lt r
    by (simp add: poll_running_step)
qed

text \<open>
  The loop as it is meant, on an operation done at the third status check and on one
  that never ends.
\<close>

lemma poll_loop_done_at_3:
  "fst (poll_loop polls_done_at_3 nm 120 0) = Inr ()
   \<and> status_checks (snd (poll_loop polls_done_at_3 nm 120 0)) = 3"
  using poll_success_from [of 0 2 120 polls_done_at_3 nm]
  by (simp add: polls_done_at_3_def op_running_def op_done_def still_running_def
                terminal_success_def)

lemma poll_loop_never_done:
  "fst (poll_loop polls_never_done nm 120 0) = Inl (PollTimeout 120)
   \<and> status_checks (snd (poll_loop polls_never_done nm 120 0)) = 120"
  using poll_timeout_from [of 0 120 polls_never_done nm]
  by (simp add: polls_never_done_def op_running_def still_running_def)




section \<open>The vector upsert\<close>

lemma upsert_vector_ignores_metadata:
  "upsert_vector w vector doc_id md = upsert_vector w vector doc_id md'"
  by (simp add: upsert_vector_def make_datapoint_def)

text \<open>
  C5 does not hold of the code: \<^verbatim>\<open>upsert_vector\<close> receives the metadata envelope, and
  its documentation says it is stored with the vector, but the datapoint it sends holds
  the id and the vector only. Here the call is evaluated for the metadata of an item.
\<close>

theorem C5_upsert_omits_metadata:
  "upsert_vector (\<lambda>k. None) [1 / 2, 1 / 4] ''post-1'' example_md
     = (Inr (), [EUpsert [[(''datapoint_id'', JStr ''post-1''),
                           (''feature_vector'', JVec [1 / 2, 1 / 4])]]])"
  by (simp add: upsert_vector_def make_datapoint_def retry_success unit_result_def)

end
